theory Spec2Isabelle
  imports Complex_Main "HOL-Library.Multiset"
begin

section \<open>The notebook \<open>2_deep_learning_for_features.ipynb\<close>\<close>

text \<open>
  The notebook prepares a table of yeast cell features, splits it, wraps the parts in
  batch iterators, defines a two-layer perceptron and trains it.  Its own code is
  \<open>make_dataset\<close>, the two \<open>train_test_split\<close> calls, \<open>DatasetFolder\<close>, the
  \<open>dataloaders\<close> dictionary, \<open>Net\<close>, \<open>train_model\<close> and \<open>print_test_accuracy\<close>.
  Everything else is pandas, scikit-learn and PyTorch.  Library calls whose result no
  property below depends on (\<open>read_csv\<close>, Python's \<open>float\<close>, the loss, \<open>backward\<close>,
  the optimizer and the scheduler) are parameters of the model; library calls whose
  behaviour a property depends on (column selection, the null mask, \<open>StandardScaler\<close>,
  \<open>train_test_split\<close>, \<open>DataLoader\<close>, \<open>Linear\<close>, \<open>relu\<close>, \<open>torch.max\<close>) are written
  out after their documentation.  What the random number generator draws (the
  permutations of the splits and of the shuffled loader) is a parameter as well.
  Floating-point numbers are modelled as reals, so rounding is not part of the model;
  wall-clock times are left out of the output.
\<close>

subsection \<open>Python exceptions\<close>

datatype error =
  FileNotFoundError | KeyError | ValueError | IndexError | AttributeError | RuntimeError
  | ZeroDivisionError

definition bind_err :: "error + 'a \<Rightarrow> ('a \<Rightarrow> error + 'b) \<Rightarrow> error + 'b" where
  "bind_err m f = (case m of Inl e \<Rightarrow> Inl e | Inr x \<Rightarrow> f x)"

subsection \<open>The table read from the CSV file\<close>

text \<open>
  A parsed CSV field is a number, a string, or missing (\<open>NaN\<close>).  A data frame has its
  column names and its rows; \<open>read_csv\<close> pads a short row with \<open>NaN\<close>.
\<close>

datatype cell = Num real | Str string | NaN

record dataframe =
  df_columns :: "string list"
  df_rows :: "cell list list"

fun col_index :: "string list \<Rightarrow> string \<Rightarrow> nat option" where
  "col_index [] c = None"
| "col_index (x # xs) c = (if x = c then Some 0 else map_option Suc (col_index xs c))"

definition cell_at :: "cell list \<Rightarrow> nat \<Rightarrow> cell" where
  "cell_at r i = (if i < length r then r ! i else NaN)"

text \<open>\<open>df[[c1, ..., ck]]\<close>: the frame of the named columns; \<open>KeyError\<close> when one is absent.\<close>

definition getitem_columns :: "dataframe \<Rightarrow> string list \<Rightarrow> error + dataframe" where
  "getitem_columns df cs =
     (case those (map (col_index (df_columns df)) cs) of
        None \<Rightarrow> Inl KeyError
      | Some js \<Rightarrow> Inr \<lparr>df_columns = cs,
                        df_rows = map (\<lambda>r. map (cell_at r) js) (df_rows df)\<rparr>)"

text \<open>\<open>df[c]\<close>: one column, as the list of its cells.\<close>

definition getitem_column :: "dataframe \<Rightarrow> string \<Rightarrow> error + cell list" where
  "getitem_column df c =
     (case col_index (df_columns df) c of
        None \<Rightarrow> Inl KeyError
      | Some j \<Rightarrow> Inr (map (\<lambda>r. cell_at r j) (df_rows df)))"

definition isnull :: "cell \<Rightarrow> bool" where
  "isnull c = (c = NaN)"

text \<open>\<open>np.sum(df.isnull(), axis=1)\<close>: the number of missing cells of each row.\<close>

definition null_count :: "cell list \<Rightarrow> nat" where
  "null_count r = sum_list (map (\<lambda>c. if isnull c then 1 else 0) r)"

text \<open>\<open>df[mask]\<close> for the row mask \<open>np.sum(df.isnull(), axis=1) == 0\<close>.\<close>

definition drop_null_rows :: "dataframe \<Rightarrow> dataframe" where
  "drop_null_rows df = df\<lparr>df_rows := filter (\<lambda>r. null_count r = 0) (df_rows df)\<rparr>"

subsection \<open>\<open>make_dataset\<close>\<close>

definition path_join :: "string \<Rightarrow> string \<Rightarrow> string" where
  "path_join a b =
     (if a = [] then b
      else if last a = CHR ''/'' then a @ b
      else a @ ''/'' @ b)"

definition columns :: "string list" where
  "columns = [''C101'', ''C103'', ''C104'', ''C115'', ''A101'', ''A120'', ''A121'', ''A122'', ''A123'']"

text \<open>The \<open>if\<close>/\<open>elif\<close> chain of the loop body; \<open>y\<close> starts as \<open>[0, 0, 0, 0]\<close>.\<close>

definition class_vector :: "cell \<Rightarrow> int list" where
  "class_vector grp =
     (if grp = Str ''no'' then [1, 0, 0, 0]
      else if grp = Str ''small'' then [0, 1, 0, 0]
      else if grp = Str ''medium'' then [0, 0, 1, 0]
      else if grp = Str ''large'' then [0, 0, 0, 1]
      else [0, 0, 0, 0])"

text \<open>
  The loop \<open>for i in range(len(groups))\<close> over the indices still to visit, with the two
  lists built so far.  \<open>X_norm[i]\<close> raises \<open>IndexError\<close> out of range; \<open>groups[i]\<close> is
  in range by the loop bound.
\<close>

fun dataset_loop ::
  "cell list \<Rightarrow> real list list \<Rightarrow> nat list \<Rightarrow> real list list \<times> int list list
     \<Rightarrow> error + (real list list \<times> int list list)" where
  "dataset_loop groups X_norm [] (features, labels) = Inr (features, labels)"
| "dataset_loop groups X_norm (i # rest) (features, labels) =
     (if i < length X_norm then
        let grp = groups ! i;
            feature = X_norm ! i;
            y = class_vector grp
        in dataset_loop groups X_norm rest (features @ [feature], labels @ [y])
      else Inl IndexError)"

text \<open>
  \<open>preprocessing.StandardScaler().fit_transform\<close> is the parameter \<open>fit_transform\<close>:
  given the feature table it returns the scaled matrix or raises.
\<close>

definition make_dataset ::
  "(string \<Rightarrow> error + dataframe) \<Rightarrow> (dataframe \<Rightarrow> error + real list list) \<Rightarrow> string
     \<Rightarrow> error + (real list list \<times> int list list)" where
  "make_dataset read_csv fit_transform dir =
     bind_err (read_csv (path_join dir ''yeast_his3.csv'')) (\<lambda>dataset.
     bind_err (getitem_columns dataset (''Cgroup'' # columns)) (\<lambda>cell_features_pre.
     let cell_features = drop_null_rows cell_features_pre in
     bind_err (getitem_columns cell_features columns) (\<lambda>X.
     bind_err (getitem_column cell_features ''Cgroup'') (\<lambda>groups.
     bind_err (fit_transform X) (\<lambda>X_norm.
     dataset_loop groups X_norm [0..<length groups] ([], []))))))"

subsection \<open>\<open>StandardScaler\<close>\<close>

text \<open>
  The scaler of scikit-learn, after its documentation, on real numbers.  It first
  converts the table to a float matrix: a number is taken as it is; a string (a field
  of a column that pandas read as text) goes through Python's \<open>float\<close>, which is
  the parameter \<open>float_of_str\<close> (\<open>None\<close> where it raises, or gives no finite number);
  a field that does not convert, and a table without rows, raise \<open>ValueError\<close>.  A
  missing field does not reach the scaler here, rows with one being dropped before;
  it counts as not convertible.
\<close>

definition to_float :: "(string \<Rightarrow> real option) \<Rightarrow> cell \<Rightarrow> real option" where
  "to_float float_of_str c =
     (case c of Num x \<Rightarrow> Some x | Str s \<Rightarrow> float_of_str s | NaN \<Rightarrow> None)"

definition check_array :: "(string \<Rightarrow> real option) \<Rightarrow> dataframe \<Rightarrow> error + real list list" where
  "check_array float_of_str X =
     (if df_rows X = [] then Inl ValueError
      else case those (map (\<lambda>r. those (map (to_float float_of_str) r)) (df_rows X)) of
             None \<Rightarrow> Inl ValueError
           | Some M \<Rightarrow> Inr M)"

text \<open>
  Then every column is shifted by its mean and divided by its scale: the square root
  of its variance (the mean of the squared deviations), or 1 when the variance is 0.
\<close>

definition column :: "real list list \<Rightarrow> nat \<Rightarrow> real list" where
  "column M j = map (\<lambda>r. r ! j) M"

definition col_mean :: "real list \<Rightarrow> real" where
  "col_mean xs = sum_list xs / real (length xs)"

definition col_var :: "real list \<Rightarrow> real" where
  "col_var xs = col_mean (map (\<lambda>x. (x - col_mean xs)\<^sup>2) xs)"

definition col_scale :: "real list \<Rightarrow> real" where
  "col_scale xs = (if col_var xs = 0 then 1 else sqrt (col_var xs))"

definition standardize :: "real list list \<Rightarrow> real list list" where
  "standardize M =
     map (\<lambda>r. map (\<lambda>j. (r ! j - col_mean (column M j)) / col_scale (column M j)) [0..<length r]) M"

definition StandardScaler_fit_transform ::
  "(string \<Rightarrow> real option) \<Rightarrow> dataframe \<Rightarrow> error + real list list" where
  "StandardScaler_fit_transform float_of_str X =
     bind_err (check_array float_of_str X) (\<lambda>M. Inr (standardize M))"

subsection \<open>The two \<open>train_test_split\<close> calls\<close>

text \<open>
  \<open>train_test_split(X, y, test_size = t)\<close> with a float \<open>t\<close>: the test part has
  \<open>ceil(t * n)\<close> samples and the training part the rest; an empty training part is a
  \<open>ValueError\<close>.  One random permutation of \<open>range(n)\<close> is drawn, its first
  \<open>n_test\<close> entries index the test part and the next \<open>n_train\<close> entries the
  training part, for \<open>X\<close> and \<open>y\<close> alike.  The permutation drawn is a parameter; its
  entries are below \<open>n\<close>, so every index is in range.  The product \<open>t * n\<close> is taken
  in the reals; for the two fractions used here, 0.20 and 0.25, the product of doubles
  has the same ceiling.
\<close>

definition safe_indexing :: "'a list \<Rightarrow> nat list \<Rightarrow> 'a list" where
  "safe_indexing a ind = map ((!) a) ind"

definition train_test_split ::
  "nat list \<Rightarrow> 'a list \<Rightarrow> 'b list \<Rightarrow> real
     \<Rightarrow> error + ('a list \<times> 'a list \<times> 'b list \<times> 'b list)" where
  "train_test_split permutation X y test_size =
     (let n_samples = length X in
      if length y \<noteq> n_samples then Inl ValueError
      else if test_size \<le> 0 \<or> test_size \<ge> 1 then Inl ValueError
      else
        let n_test = nat \<lceil>test_size * real n_samples\<rceil>;
            n_train = n_samples - n_test
        in if n_train = 0 then Inl ValueError
           else
             let ind_test = take n_test permutation;
                 ind_train = take n_train (drop n_test permutation)
             in Inr (safe_indexing X ind_train, safe_indexing X ind_test,
                     safe_indexing y ind_train, safe_indexing y ind_test))"

record ('a, 'b) splits =
  X_train :: "'a list"
  y_train :: "'b list"
  X_val :: "'a list"
  y_val :: "'b list"
  X_test :: "'a list"
  y_test :: "'b list"

text \<open>The cell that splits: first the test part (0.20), then validation (0.25 of the rest).\<close>

definition split_cell ::
  "nat list \<Rightarrow> nat list \<Rightarrow> 'a list \<Rightarrow> 'b list \<Rightarrow> error + ('a, 'b) splits" where
  "split_cell perm1 perm2 X y =
     bind_err (train_test_split perm1 X y (20 / 100)) (\<lambda>(X_tmp, X_test', y_tmp, y_test').
     bind_err (train_test_split perm2 X_tmp y_tmp (25 / 100)) (\<lambda>(X_train', X_val', y_train', y_val').
     Inr \<lparr>X_train = X_train', y_train = y_train', X_val = X_val', y_val = y_val',
          X_test = X_test', y_test = y_test'\<rparr>))"

text \<open>\<open>make_dataset("data")\<close> followed by the split.\<close>

definition load_and_split ::
  "(string \<Rightarrow> error + dataframe) \<Rightarrow> (dataframe \<Rightarrow> error + real list list) \<Rightarrow> nat list
     \<Rightarrow> nat list \<Rightarrow> error + (real list, int list) splits" where
  "load_and_split read_csv fit_transform perm1 perm2 =
     bind_err (make_dataset read_csv fit_transform ''data'') (\<lambda>(X, y).
     split_cell perm1 perm2 X y)"

subsection \<open>\<open>DatasetFolder\<close> and the \<open>dataloaders\<close>\<close>

datatype phase = Train | Val | Test

record DatasetFolder =
  samples :: "real list list"
  targets :: "int list list"

definition getitem :: "DatasetFolder \<Rightarrow> nat \<Rightarrow> real list \<times> int list" where
  "getitem self index = (samples self ! index, targets self ! index)"

definition len :: "DatasetFolder \<Rightarrow> nat" where
  "len self = length (samples self)"

definition feature_datasets :: "(real list, int list) splits \<Rightarrow> phase \<Rightarrow> DatasetFolder" where
  "feature_datasets sp ph =
     (case ph of
        Train \<Rightarrow> \<lparr>samples = X_train sp, targets = y_train sp\<rparr>
      | Val \<Rightarrow> \<lparr>samples = X_val sp, targets = y_val sp\<rparr>
      | Test \<Rightarrow> \<lparr>samples = X_test sp, targets = y_test sp\<rparr>)"

record DataLoader =
  dataset :: DatasetFolder
  batch_size :: nat
  shuffle :: bool

definition batch_size_nb :: nat where
  "batch_size_nb = 64"

definition dataloaders :: "(phase \<Rightarrow> DatasetFolder) \<Rightarrow> phase \<Rightarrow> DataLoader" where
  "dataloaders fd ph =
     (case ph of
        Train \<Rightarrow> \<lparr>dataset = fd Train, batch_size = batch_size_nb, shuffle = True\<rparr>
      | Val \<Rightarrow> \<lparr>dataset = fd Val, batch_size = batch_size_nb, shuffle = False\<rparr>
      | Test \<Rightarrow> \<lparr>dataset = fd Test, batch_size = batch_size_nb, shuffle = False\<rparr>)"

definition dataset_sizes :: "(phase \<Rightarrow> DatasetFolder) \<Rightarrow> phase \<Rightarrow> nat" where
  "dataset_sizes fd x = len (fd x)"

text \<open>
  One pass of a \<open>DataLoader\<close> (\<open>drop_last\<close> is off).  The sampler gives the order of
  the indices: \<open>range(len)\<close>, or with \<open>shuffle\<close> a permutation of it drawn for this
  pass (the parameter).  The batch sampler cuts the order into runs of \<open>batch_size\<close>
  indices, the last run holding what is left; each run is fetched with
  \<open>__getitem__\<close> and collated into the pair of the inputs and the labels.  The
  sampler's indices are below \<open>len\<close>, so \<open>__getitem__\<close> reads in range when there are
  as many targets as samples.  A \<open>DataLoader\<close> cannot be built with batch size 0; the
  batch sampler below gives no batch then.
\<close>

definition sampler :: "nat list \<Rightarrow> DataLoader \<Rightarrow> nat list" where
  "sampler permutation dl = (if shuffle dl then permutation else [0..<len (dataset dl)])"

function batch_sampler :: "nat \<Rightarrow> 'a list \<Rightarrow> 'a list list" where
  "batch_sampler b xs =
     (if b = 0 \<or> xs = [] then [] else take b xs # batch_sampler b (drop b xs))"
  by pat_completeness auto
termination
  by (relation "measure (\<lambda>(b, xs). length xs)") auto

definition collate :: "(real list \<times> int list) list \<Rightarrow> real list list \<times> int list list" where
  "collate items = (map fst items, map snd items)"

definition iter_loader :: "nat list \<Rightarrow> DataLoader \<Rightarrow> (real list list \<times> int list list) list" where
  "iter_loader permutation dl =
     map (\<lambda>run. collate (map (getitem (dataset dl)) run))
         (batch_sampler (batch_size dl) (sampler permutation dl))"

subsection \<open>The network \<open>Net\<close>\<close>

text \<open>
  \<open>nn.Linear(i, o)\<close> holds an \<open>o\<close> by \<open>i\<close> weight matrix and a bias of width \<open>o\<close>, and
  maps \<open>x\<close> to \<open>x W\<^sup>T + b\<close>; an input whose width is not \<open>i\<close> is a \<open>RuntimeError\<close>.
\<close>

record Linear =
  in_features :: nat
  out_features :: nat
  weight :: "real list list"
  bias :: "real list"

definition Linear_ok :: "Linear \<Rightarrow> bool" where
  "Linear_ok l =
     (length (weight l) = out_features l \<and> length (bias l) = out_features l \<and>
      list_all (\<lambda>row. length row = in_features l) (weight l))"

definition dot :: "real list \<Rightarrow> real list \<Rightarrow> real" where
  "dot u v = sum_list (map2 (*) u v)"

definition Linear_call :: "Linear \<Rightarrow> real list \<Rightarrow> error + real list" where
  "Linear_call l x =
     (if length x \<noteq> in_features l then Inl RuntimeError
      else Inr (map2 (\<lambda>row b. dot x row + b) (weight l) (bias l)))"

definition relu :: "real list \<Rightarrow> real list" where
  "relu x = map (max 0) x"

record Net =
  fc1 :: Linear
  fc2 :: Linear

text \<open>\<open>Net.__init__\<close> fixes the widths; the initial entries are drawn by the library.\<close>

definition Net_init :: "real list list \<Rightarrow> real list \<Rightarrow> real list list \<Rightarrow> real list \<Rightarrow> Net" where
  "Net_init W1 b1 W2 b2 =
     \<lparr>fc1 = \<lparr>in_features = 9, out_features = 9, weight = W1, bias = b1\<rparr>,
      fc2 = \<lparr>in_features = 9, out_features = 4, weight = W2, bias = b2\<rparr>\<rparr>"

definition forward :: "Net \<Rightarrow> real list \<Rightarrow> error + real list" where
  "forward self x =
     bind_err (Linear_call (fc1 self) x) (\<lambda>h.
     let x1 = relu h in
     Linear_call (fc2 self) x1)"

subsection \<open>The objects \<open>train_model\<close> works on\<close>

text \<open>
  The model is a mutable object: its parameters (\<open>state_dict()\<close>, of an arbitrary type
  \<open>'w\<close>) and its mode flag.  The optimizer and the scheduler are mutable objects too;
  their state, with the gradients stored beside the parameters, is the third component
  (of an arbitrary type \<open>'o\<close>).  \<open>copy.deepcopy(model.state_dict())\<close> is the value of
  the first component at that moment, which later updates of the world do not touch.
\<close>

record ('w, 'o) world =
  state_dict :: 'w
  training :: bool
  opt_state :: 'o

text \<open>
  What the library does with these objects is a parameter: the model applied to one
  input row (as \<open>Net\<close> does, a batch is mapped row by row and calling the model
  changes nothing), the loss of a batch, \<open>optimizer.zero_grad()\<close>,
  \<open>loss.backward()\<close>, \<open>optimizer.step()\<close> and \<open>scheduler.step()\<close>.  They are taken
  not to raise.
\<close>

record ('w, 'o) torch =
  model_row :: "'w \<Rightarrow> bool \<Rightarrow> real list \<Rightarrow> real list"
  criterion :: "real list list \<Rightarrow> nat list \<Rightarrow> real"
  zero_grad :: "'o \<Rightarrow> 'o"
  backward :: "'w \<Rightarrow> bool \<Rightarrow> real list list \<Rightarrow> nat list \<Rightarrow> 'o \<Rightarrow> 'o"
  optimizer_step :: "'w \<Rightarrow> 'o \<Rightarrow> 'w \<times> 'o"
  scheduler_step :: "'o \<Rightarrow> 'o"

text \<open>
  The index part of \<open>torch.max(t, 1)\<close>: for each row the position of its first
  maximal entry.  Label rows have four entries; on an empty row, where the library
  raises, the value here is 0.
\<close>

fun argmax :: "real list \<Rightarrow> nat" where
  "argmax [] = 0"
| "argmax (x # xs) = (if list_all (\<lambda>y. y \<le> x) xs then 0 else Suc (argmax xs))"

text \<open>\<open>torch.sum(preds == classnums)\<close>\<close>

definition count_equal :: "nat list \<Rightarrow> nat list \<Rightarrow> int" where
  "count_equal preds classnums = int (length (filter (\<lambda>(p, c). p = c) (zip preds classnums)))"

text \<open>
  \<open>running_corrects\<close> starts as the Python integer 0 and becomes a tensor with the first
  \<open>+=\<close>; only a tensor has \<open>.double()\<close>.
\<close>

datatype counter = PyInt int | Tensor int

fun iadd :: "counter \<Rightarrow> int \<Rightarrow> counter" where
  "iadd (PyInt a) k = Tensor (a + k)"
| "iadd (Tensor a) k = Tensor (a + k)"

fun double :: "counter \<Rightarrow> error + real" where
  "double (PyInt a) = Inl AttributeError"
| "double (Tensor a) = Inr (real_of_int a)"

text \<open>What is printed, line by line, without the elapsed times.\<close>

datatype line =
  Print_model
  | Blank
  | Epoch_header nat int
  | Phase_stats phase real real
  | Training_complete
  | Best_val_acc real
  | On_test real real

fun fold_err :: "('s \<Rightarrow> 'a \<Rightarrow> error + 's) \<Rightarrow> 's \<Rightarrow> 'a list \<Rightarrow> error + 's" where
  "fold_err f s [] = Inr s"
| "fold_err f s (x # xs) = (case f s x of Inl e \<Rightarrow> Inl e | Inr s' \<Rightarrow> fold_err f s' xs)"

subsection \<open>\<open>train_model\<close>\<close>

text \<open>The body of \<open>for inputs, labels in dataloaders[phase]\<close>.\<close>

definition batch_body ::
  "('w, 'o) torch \<Rightarrow> phase \<Rightarrow> ('w, 'o) world \<times> real \<times> counter
     \<Rightarrow> real list list \<times> int list list \<Rightarrow> ('w, 'o) world \<times> real \<times> counter" where
  "batch_body tc ph s b =
     (case s of (m, running_loss, running_corrects) \<Rightarrow>
      case b of (inputs, labels0) \<Rightarrow>
        let labels = map (map real_of_int) labels0;
            m1 = m\<lparr>opt_state := zero_grad tc (opt_state m)\<rparr>;
            outputs = map (model_row tc (state_dict m1) (training m1)) inputs;
            classnums = map argmax labels;
            preds = map argmax outputs;
            loss = criterion tc outputs classnums;
            m2 = (if ph = Train then
                    let g = backward tc (state_dict m1) (training m1) inputs classnums (opt_state m1);
                        (w, opt) = optimizer_step tc (state_dict m1) g
                    in m1\<lparr>state_dict := w, opt_state := opt\<rparr>
                  else m1)
        in (m2, running_loss + loss * real (length inputs),
            iadd running_corrects (count_equal preds classnums)))"

text \<open>
  One phase up to the end of its batch loop: the mode switch (and the scheduler step
  before training), then the batches of one pass of the phase's loader.
\<close>

definition phase_pass ::
  "(phase \<Rightarrow> DatasetFolder) \<Rightarrow> nat list \<Rightarrow> ('w, 'o) torch \<Rightarrow> phase \<Rightarrow> ('w, 'o) world
     \<Rightarrow> ('w, 'o) world \<times> real \<times> counter" where
  "phase_pass fd permutation tc ph m =
     (let m0 = (if ph = Train
                then m\<lparr>opt_state := scheduler_step tc (opt_state m), training := True\<rparr>
                else m\<lparr>training := False\<rparr>)
      in foldl (batch_body tc ph) (m0, 0, PyInt 0)
               (iter_loader permutation (dataloaders fd ph)))"

text \<open>
  The two divisions by \<open>dataset_sizes[phase]\<close>: a Python float by an integer, which
  raises on zero, then \<open>running_corrects.double()\<close> by it.
\<close>

definition epoch_stats ::
  "(phase \<Rightarrow> DatasetFolder) \<Rightarrow> phase \<Rightarrow> real \<Rightarrow> counter \<Rightarrow> error + (real \<times> real)" where
  "epoch_stats fd ph running_loss running_corrects =
     (if dataset_sizes fd ph = 0 then Inl ZeroDivisionError
      else
        let epoch_loss = running_loss / real (dataset_sizes fd ph) in
        bind_err (double running_corrects) (\<lambda>c.
        let epoch_acc = c / real (dataset_sizes fd ph) in
        Inr (epoch_loss, epoch_acc)))"

record ('w, 'o) loop_state =
  model :: "('w, 'o) world"
  best_acc :: real
  best_model_wts :: 'w
  out :: "line list"

text \<open>The body of \<open>for phase in ['train', 'val']\<close>, in epoch \<open>epoch\<close>.\<close>

definition phase_body ::
  "(phase \<Rightarrow> DatasetFolder) \<Rightarrow> nat list \<Rightarrow> ('w, 'o) torch \<Rightarrow> ('w, 'o) loop_state \<Rightarrow> phase
     \<Rightarrow> error + ('w, 'o) loop_state" where
  "phase_body fd permutation tc st ph =
     (case phase_pass fd permutation tc ph (model st) of
        (m, running_loss, running_corrects) \<Rightarrow>
          bind_err (epoch_stats fd ph running_loss running_corrects) (\<lambda>(epoch_loss, epoch_acc).
          let st1 = st\<lparr>model := m, out := out st @ [Phase_stats ph epoch_loss epoch_acc]\<rparr> in
          Inr (if ph = Val \<and> epoch_acc > best_acc st1
               then st1\<lparr>best_acc := epoch_acc, best_model_wts := state_dict m\<rparr>
               else st1)))"

text \<open>
  The body of \<open>for epoch in range(num_epochs)\<close>; \<open>rng epoch\<close> is the permutation the
  training loader draws in that epoch.
\<close>

definition epoch_body ::
  "(phase \<Rightarrow> DatasetFolder) \<Rightarrow> (nat \<Rightarrow> nat list) \<Rightarrow> ('w, 'o) torch \<Rightarrow> int
     \<Rightarrow> ('w, 'o) loop_state \<Rightarrow> nat \<Rightarrow> error + ('w, 'o) loop_state" where
  "epoch_body fd rng tc num_epochs st epoch =
     (let st0 = st\<lparr>out := out st @ [Epoch_header epoch (num_epochs - 1)]\<rparr> in
      bind_err (fold_err (phase_body fd (rng epoch) tc) st0 [Train, Val]) (\<lambda>st1.
      Inr (st1\<lparr>out := out st1 @ [Blank]\<rparr>)))"

definition train_model ::
  "(phase \<Rightarrow> DatasetFolder) \<Rightarrow> (nat \<Rightarrow> nat list) \<Rightarrow> ('w, 'o) torch \<Rightarrow> ('w, 'o) world \<Rightarrow> int
     \<Rightarrow> error + (('w, 'o) world \<times> line list)" where
  "train_model fd rng tc m num_epochs =
     (let st = \<lparr>model = m, best_acc = 0, best_model_wts = state_dict m,
                out = [Print_model, Blank]\<rparr>
      in bind_err (fold_err (epoch_body fd rng tc num_epochs) st [0..<nat num_epochs]) (\<lambda>st'.
         Inr ((model st')\<lparr>state_dict := best_model_wts st'\<rparr>,
              out st' @ [Blank, Training_complete, Best_val_acc (best_acc st')])))"

subsection \<open>\<open>print_test_accuracy\<close>\<close>

definition test_body ::
  "('w, 'o) torch \<Rightarrow> ('w, 'o) world \<times> real \<times> counter
     \<Rightarrow> real list list \<times> int list list \<Rightarrow> ('w, 'o) world \<times> real \<times> counter" where
  "test_body tc s b =
     (case s of (m, running_loss, running_corrects) \<Rightarrow>
      case b of (inputs, labels0) \<Rightarrow>
        let labels = map (map real_of_int) labels0;
            outputs = map (model_row tc (state_dict m) (training m)) inputs;
            classnums = map argmax labels;
            preds = map argmax outputs;
            loss = criterion tc outputs classnums
        in (m, running_loss + loss * real (length inputs),
            iadd running_corrects (count_equal preds classnums)))"

definition print_test_accuracy ::
  "(phase \<Rightarrow> DatasetFolder) \<Rightarrow> nat list \<Rightarrow> ('w, 'o) torch \<Rightarrow> ('w, 'o) world \<Rightarrow> phase
     \<Rightarrow> error + (('w, 'o) world \<times> line list)" where
  "print_test_accuracy fd permutation tc m ph =
     (case foldl (test_body tc) (m\<lparr>training := False\<rparr>, 0, PyInt 0)
                 (iter_loader permutation (dataloaders fd ph)) of
        (m', running_loss, running_corrects) \<Rightarrow>
          bind_err (epoch_stats fd ph running_loss running_corrects) (\<lambda>(epoch_loss, epoch_acc).
          Inr (m', [On_test epoch_loss epoch_acc])))"

section \<open>Notions the properties are stated with\<close>

subsection \<open>Rows of the table\<close>

text \<open>
  The field of row \<open>r\<close> in the column named \<open>c\<close>; the ten fields \<open>make_dataset\<close>
  selects; the rows that have all ten (the loaded rows), in file order; and the table
  of their nine feature fields, which is what the scaler is given.
\<close>

definition field :: "dataframe \<Rightarrow> cell list \<Rightarrow> string \<Rightarrow> cell" where
  "field df r c = (case col_index (df_columns df) c of None \<Rightarrow> NaN | Some j \<Rightarrow> cell_at r j)"

definition selected :: "dataframe \<Rightarrow> cell list \<Rightarrow> cell list" where
  "selected df r = map (field df r) (''Cgroup'' # columns)"

definition loaded_rows :: "dataframe \<Rightarrow> cell list list" where
  "loaded_rows df = filter (\<lambda>r. list_all (\<lambda>c. c \<noteq> NaN) (selected df r)) (df_rows df)"

definition has_columns :: "dataframe \<Rightarrow> bool" where
  "has_columns df = list_all (\<lambda>c. c \<in> set (df_columns df)) (''Cgroup'' # columns)"

definition feature_cells :: "dataframe \<Rightarrow> dataframe" where
  "feature_cells df =
     \<lparr>df_columns = columns, df_rows = map (\<lambda>r. map (field df r) columns) (loaded_rows df)\<rparr>"

text \<open>
  Every feature field of the loaded rows converts to a float; and the matrix of the
  converted fields, one row for each loaded row.
\<close>

definition numeric_features :: "(string \<Rightarrow> real option) \<Rightarrow> dataframe \<Rightarrow> bool" where
  "numeric_features float_of_str df =
     list_all (\<lambda>r. list_all (\<lambda>c. to_float float_of_str (field df r c) \<noteq> None) columns)
       (loaded_rows df)"

definition feature_matrix :: "(string \<Rightarrow> real option) \<Rightarrow> dataframe \<Rightarrow> real list list" where
  "feature_matrix float_of_str df =
     map (\<lambda>r. map (\<lambda>c. the (to_float float_of_str (field df r c))) columns) (loaded_rows df)"

definition classes :: "string list" where
  "classes = [''no'', ''small'', ''medium'', ''large'']"


subsection \<open>Accuracy, loss and the course of training\<close>

text \<open>
  A sample is classified correctly by the weights \<open>w\<close> when the first maximal entry of
  the model's output (in evaluation mode) is at the position of the first maximal
  entry of its label.  The accuracy on a dataset is the fraction of its samples that
  are.
\<close>

definition correct :: "('w, 'o) torch \<Rightarrow> 'w \<Rightarrow> real list \<times> int list \<Rightarrow> bool" where
  "correct tc w s = (argmax (model_row tc w False (fst s)) = argmax (map real_of_int (snd s)))"

definition accuracy :: "('w, 'o) torch \<Rightarrow> 'w \<Rightarrow> DatasetFolder \<Rightarrow> real" where
  "accuracy tc w ds =
     real (length (filter (correct tc w) (zip (samples ds) (targets ds)))) / real (len ds)"

text \<open>
  The loss of one batch under the weights \<open>w\<close>, and the mean of the batch losses of a
  pass in which every batch counts with its number of samples.
\<close>

definition batch_loss ::
  "('w, 'o) torch \<Rightarrow> 'w \<Rightarrow> real list list \<times> int list list \<Rightarrow> real" where
  "batch_loss tc w b =
     criterion tc (map (model_row tc w False) (fst b))
                  (map (\<lambda>y. argmax (map real_of_int y)) (snd b))"

definition weighted_mean_loss ::
  "('w, 'o) torch \<Rightarrow> 'w \<Rightarrow> (real list list \<times> int list list) list \<Rightarrow> real" where
  "weighted_mean_loss tc w bs =
     sum_list (map (\<lambda>b. batch_loss tc w b * real (length (fst b))) bs)
       / sum_list (map (\<lambda>b. real (length (fst b))) bs)"

text \<open>
  The model object after \<open>k\<close> whole epochs (training pass, then validation pass, of
  each); the weights it has at the end of the validation phase of epoch \<open>k\<close>; and the
  validation accuracy of epoch \<open>k\<close>, the accuracy of those weights on the validation
  set.
\<close>

fun epoch_model ::
  "(phase \<Rightarrow> DatasetFolder) \<Rightarrow> (nat \<Rightarrow> nat list) \<Rightarrow> ('w, 'o) torch \<Rightarrow> ('w, 'o) world \<Rightarrow> nat
     \<Rightarrow> ('w, 'o) world" where
  "epoch_model fd rng tc m 0 = m"
| "epoch_model fd rng tc m (Suc k) =
     fst (phase_pass fd (rng k) tc Val
           (fst (phase_pass fd (rng k) tc Train (epoch_model fd rng tc m k))))"

definition val_wts ::
  "(phase \<Rightarrow> DatasetFolder) \<Rightarrow> (nat \<Rightarrow> nat list) \<Rightarrow> ('w, 'o) torch \<Rightarrow> ('w, 'o) world \<Rightarrow> nat \<Rightarrow> 'w" where
  "val_wts fd rng tc m k = state_dict (epoch_model fd rng tc m (Suc k))"

definition val_acc ::
  "(phase \<Rightarrow> DatasetFolder) \<Rightarrow> (nat \<Rightarrow> nat list) \<Rightarrow> ('w, 'o) torch \<Rightarrow> ('w, 'o) world \<Rightarrow> nat \<Rightarrow> real" where
  "val_acc fd rng tc m k = accuracy tc (val_wts fd rng tc m k) (fd Val)"

subsection \<open>A small table\<close>

text \<open>
  Four rows in a file with one more column (\<open>C102\<close>) than the ten selected: the first
  row lacks only \<open>C102\<close>, the second has a group name outside the four, the third
  lacks the feature \<open>C101\<close>, the fourth is complete.
\<close>

definition example_table :: dataframe where
  "example_table =
     \<lparr>df_columns = [''C101'', ''C102'', ''C103'', ''C104'', ''C115'', ''A101'', ''A120'',
                     ''A121'', ''A122'', ''A123'', ''Cgroup''],
      df_rows =
        [[Num 1, NaN, Num 2, Num 3, Num 4, Num 5, Num 6, Num 7, Num 8, Num 9, Str ''small''],
         [Num 2, Num 0, Num 2, Num 2, Num 2, Num 2, Num 2, Num 2, Num 2, Num 2, Str ''huge''],
         [NaN, Num 0, Num 3, Num 3, Num 3, Num 3, Num 3, Num 3, Num 3, Num 3, Str ''no''],
         [Num 4, Num 0, Num 4, Num 4, Num 4, Num 4, Num 4, Num 4, Num 4, Num 4, Str ''large'']]\<rparr>"

definition example_read_csv :: "string \<Rightarrow> error + dataframe" where
  "example_read_csv path =
     (if path = ''data/yeast_his3.csv'' then Inr example_table else Inl FileNotFoundError)"

text \<open>A scaler that returns the numbers of the table as they are.\<close>

definition no_scaling :: "dataframe \<Rightarrow> error + real list list" where
  "no_scaling X =
     Inr (map (map (\<lambda>c. case c of Num x \<Rightarrow> x | Str s \<Rightarrow> 0 | NaN \<Rightarrow> 0)) (df_rows X))"

subsection \<open>Two tables for the scaler\<close>

text \<open>
  Python's \<open>float\<close> on the strings the tables below hold: a non-empty string of
  decimal digits is its number, and \<open>x\<close> is not a number.  (It stands for \<open>float\<close>
  on these strings only.)
\<close>

definition digit_value :: "char \<Rightarrow> nat option" where
  "digit_value c =
     (if c = CHR ''0'' then Some 0 else if c = CHR ''1'' then Some 1
      else if c = CHR ''2'' then Some 2 else if c = CHR ''3'' then Some 3
      else if c = CHR ''4'' then Some 4 else if c = CHR ''5'' then Some 5
      else if c = CHR ''6'' then Some 6 else if c = CHR ''7'' then Some 7
      else if c = CHR ''8'' then Some 8 else if c = CHR ''9'' then Some 9
      else None)"

fun digits_value :: "nat \<Rightarrow> string \<Rightarrow> nat option" where
  "digits_value acc [] = Some acc"
| "digits_value acc (c # cs) =
     (case digit_value c of None \<Rightarrow> None | Some d \<Rightarrow> digits_value (10 * acc + d) cs)"

definition float_of_digits :: "string \<Rightarrow> real option" where
  "float_of_digits s = (if s = [] then None else map_option real (digits_value 0 s))"

text \<open>
  Four complete rows whose last feature, \<open>A123\<close>, is the same in all of them; every
  other feature column has mean 2 or 11 and variance 1.
\<close>

definition constant_table :: dataframe where
  "constant_table =
     \<lparr>df_columns = [''Cgroup'', ''C101'', ''C103'', ''C104'', ''C115'', ''A101'', ''A120'',
                     ''A121'', ''A122'', ''A123''],
      df_rows =
        [[Str ''no'', Num 1, Num 1, Num 10, Num 1, Num 1, Num 1, Num 1, Num 1, Num 5],
         [Str ''small'', Num 1, Num 1, Num 12, Num 1, Num 1, Num 1, Num 1, Num 1, Num 5],
         [Str ''medium'', Num 3, Num 3, Num 10, Num 3, Num 3, Num 3, Num 3, Num 3, Num 5],
         [Str ''large'', Num 3, Num 3, Num 12, Num 3, Num 3, Num 3, Num 3, Num 3, Num 5]]\<rparr>"

definition constant_read_csv :: "string \<Rightarrow> error + dataframe" where
  "constant_read_csv path =
     (if path = ''data/yeast_his3.csv'' then Inr constant_table else Inl FileNotFoundError)"

text \<open>
  The same rows, preceded by a row without group whose \<open>C101\<close> is the text \<open>x\<close>: pandas
  then reads the whole column \<open>C101\<close> as text, and the fields \<open>1\<close> and \<open>3\<close> of the rows
  that are kept reach the scaler as strings.
\<close>

definition text_table :: dataframe where
  "text_table =
     \<lparr>df_columns = [''Cgroup'', ''C101'', ''C103'', ''C104'', ''C115'', ''A101'', ''A120'',
                     ''A121'', ''A122'', ''A123''],
      df_rows =
        [[NaN, Str ''x'', Num 0, Num 0, Num 0, Num 0, Num 0, Num 0, Num 0, Num 0],
         [Str ''no'', Str ''1'', Num 1, Num 10, Num 1, Num 1, Num 1, Num 1, Num 1, Num 5],
         [Str ''small'', Str ''1'', Num 1, Num 12, Num 1, Num 1, Num 1, Num 1, Num 1, Num 5],
         [Str ''medium'', Str ''3'', Num 3, Num 10, Num 3, Num 3, Num 3, Num 3, Num 3, Num 5],
         [Str ''large'', Str ''3'', Num 3, Num 12, Num 3, Num 3, Num 3, Num 3, Num 3, Num 5]]\<rparr>"

definition text_read_csv :: "string \<Rightarrow> error + dataframe" where
  "text_read_csv path =
     (if path = ''data/yeast_his3.csv'' then Inr text_table else Inl FileNotFoundError)"

subsection \<open>Small datasets and a toy model\<close>

definition example_splits :: "(real list, int list) splits" where
  "example_splits =
     \<lparr>X_train = [[1], [2], [3]], y_train = [[1, 0, 0, 0], [0, 1, 0, 0], [0, 0, 1, 0]],
      X_val = [[4], [5]], y_val = [[0, 1, 0, 0], [0, 0, 1, 0]],
      X_test = [[6]], y_test = [[0, 0, 0, 1]]\<rparr>"

text \<open>
  A toy model: its weights are one number \<open>w\<close>, it puts class \<open>w mod 4\<close> first whatever
  the input, and every optimizer step adds 1 to \<open>w\<close>.  The loss of a batch is the
  fraction of its samples that are misclassified.  The optimizer's state is the
  accumulated gradient, here the number of samples seen since the last \<open>zero_grad\<close>,
  and the number of scheduler steps.
\<close>

definition toy :: "(nat, int \<times> nat) torch" where
  "toy =
     \<lparr>model_row = (\<lambda>w mode x. map (\<lambda>j. if j = w mod 4 then 1 else 0) [0, 1, 2, 3]),
      criterion = (\<lambda>outputs classnums.
         real (length (filter (\<lambda>(out, c). argmax out \<noteq> c) (zip outputs classnums)))
           / real (length outputs)),
      zero_grad = (\<lambda>(g, e). (0, e)),
      backward = (\<lambda>w mode inputs classnums (g, e). (g + int (length inputs), e)),
      optimizer_step = (\<lambda>w (g, e). (w + 1, (g, e))),
      scheduler_step = (\<lambda>(g, e). (g, e + 1))\<rparr>"

definition toy_order :: "nat \<Rightarrow> nat list" where
  "toy_order epoch = [2, 0, 1]"

definition toy_world :: "nat \<Rightarrow> (nat, int \<times> nat) world" where
  "toy_world w = \<lparr>state_dict = w, training = True, opt_state = (0, 0)\<rparr>"

subsection \<open>A small network\<close>

text \<open>
  The first layer is the identity, the second reads the first three hidden units and
  the negated first one, with bias \<open>- 1\<close> on the last output.
\<close>

definition example_W1 :: "real list list" where
  "example_W1 =
     [[1, 0, 0, 0, 0, 0, 0, 0, 0], [0, 1, 0, 0, 0, 0, 0, 0, 0], [0, 0, 1, 0, 0, 0, 0, 0, 0],
      [0, 0, 0, 1, 0, 0, 0, 0, 0], [0, 0, 0, 0, 1, 0, 0, 0, 0], [0, 0, 0, 0, 0, 1, 0, 0, 0],
      [0, 0, 0, 0, 0, 0, 1, 0, 0], [0, 0, 0, 0, 0, 0, 0, 1, 0], [0, 0, 0, 0, 0, 0, 0, 0, 1]]"

definition example_b1 :: "real list" where
  "example_b1 = [0, 0, 0, 0, 0, 0, 0, 0, 0]"

definition example_W2 :: "real list list" where
  "example_W2 =
     [[1, 0, 0, 0, 0, 0, 0, 0, 0], [0, 1, 0, 0, 0, 0, 0, 0, 0], [0, 0, 1, 0, 0, 0, 0, 0, 0],
      [- 1, 0, 0, 0, 0, 0, 0, 0, 0]]"

definition example_b2 :: "real list" where
  "example_b2 = [0, 0, 0, - 1]"

definition example_net :: Net where
  "example_net = Net_init example_W1 example_b1 example_W2 example_b2"

definition example_x :: "real list" where
  "example_x = [1, - 2, 3, 0, 0, 0, 0, 0, 0]"

section \<open>Properties\<close>

subsection \<open>What \<open>make_dataset\<close> returns\<close>

lemma bind_err_Inr [simp]: "bind_err (Inr x) f = f x"
  by (simp add: bind_err_def)

lemma bind_err_Inl [simp]: "bind_err (Inl e) f = Inl e"
  by (simp add: bind_err_def)

lemma col_index_None_iff: "col_index cs c = None \<longleftrightarrow> c \<notin> set cs"
  by (induction cs) auto

lemma those_map_Some:
  "list_all (\<lambda>x. f x \<noteq> None) xs \<Longrightarrow> those (map f xs) = Some (map (\<lambda>x. the (f x)) xs)"
  by (induction xs) auto

lemma those_map_None:
  "\<not> list_all (\<lambda>x. f x \<noteq> None) xs \<Longrightarrow> those (map f xs) = None"
  by (induction xs) (auto split: option.splits)

lemma null_count_zero: "null_count r = 0 \<longleftrightarrow> list_all (\<lambda>c. c \<noteq> NaN) r"
  by (induction r) (auto simp: null_count_def isnull_def)

lemma field_the:
  "c \<in> set (df_columns df) \<Longrightarrow> cell_at r (the (col_index (df_columns df) c)) = field df r c"
  by (auto simp: field_def col_index_None_iff split: option.splits)

lemma select_ten:
  assumes "has_columns df"
  shows "getitem_columns df (''Cgroup'' # columns) =
           Inr \<lparr>df_columns = ''Cgroup'' # columns, df_rows = map (selected df) (df_rows df)\<rparr>"
proof -
  have all: "list_all (\<lambda>c. col_index (df_columns df) c \<noteq> None) (''Cgroup'' # columns)"
    using assms unfolding has_columns_def by (simp add: col_index_None_iff list_all_iff)
  have "map (cell_at r) (map (\<lambda>c. the (col_index (df_columns df) c)) (''Cgroup'' # columns))
          = selected df r" for r
    using assms unfolding has_columns_def selected_def
    by (simp add: list_all_iff field_the del: col_index.simps)
  then show ?thesis
    unfolding getitem_columns_def those_map_Some [OF all] by simp
qed

lemma select_ten_missing:
  assumes "\<not> has_columns df"
  shows "getitem_columns df (''Cgroup'' # columns) = Inl KeyError"
proof -
  have "\<not> list_all (\<lambda>c. col_index (df_columns df) c \<noteq> None) (''Cgroup'' # columns)"
    using assms unfolding has_columns_def by (simp add: col_index_None_iff list_all_iff)
  then have "those (map (col_index (df_columns df)) (''Cgroup'' # columns)) = None"
    by (rule those_map_None)
  then show ?thesis
    by (simp only: getitem_columns_def option.case)
qed

lemma drop_null_selected:
  "drop_null_rows \<lparr>df_columns = cs, df_rows = map (selected df) (df_rows df)\<rparr>
     = \<lparr>df_columns = cs, df_rows = map (selected df) (loaded_rows df)\<rparr>"
  by (simp add: drop_null_rows_def loaded_rows_def filter_map null_count_zero comp_def)

lemma select_features:
  "getitem_columns \<lparr>df_columns = ''Cgroup'' # columns, df_rows = map (selected df) rs\<rparr> columns
     = Inr \<lparr>df_columns = columns, df_rows = map (\<lambda>r. map (field df r) columns) rs\<rparr>"
  by (simp add: getitem_columns_def columns_def selected_def cell_at_def)

lemma select_groups:
  "getitem_column \<lparr>df_columns = ''Cgroup'' # columns, df_rows = map (selected df) rs\<rparr> ''Cgroup''
     = Inr (map (\<lambda>r. field df r ''Cgroup'') rs)"
  by (simp add: getitem_column_def selected_def cell_at_def)

lemma dataset_loop_range:
  "n \<le> length groups \<Longrightarrow> k \<le> n \<Longrightarrow>
   dataset_loop groups X_norm [k..<n] (fs, ls)
     = (if n \<le> length X_norm \<or> k = n
        then Inr (fs @ take (n - k) (drop k X_norm), ls @ map class_vector (take (n - k) (drop k groups)))
        else Inl IndexError)"
proof (induction "n - k" arbitrary: k fs ls)
  case 0
  then show ?case by simp
next
  case (Suc d)
  then have kn: "k < n" and d: "d = n - Suc k" by auto
  have up: "[k..<n] = k # [Suc k..<n]" using kn by (simp add: upt_conv_Cons)
  show ?case
  proof (cases "k < length X_norm")
    case True
    have t1: "take (n - k) (drop k X_norm) = X_norm ! k # take (n - Suc k) (drop (Suc k) X_norm)"
      using True kn by (metis Cons_nth_drop_Suc Suc_diff_Suc take_Suc_Cons)
    have kg: "k < length groups" using kn Suc.prems by simp
    have t2: "take (n - k) (drop k groups) = groups ! k # take (n - Suc k) (drop (Suc k) groups)"
      using kg kn by (metis Cons_nth_drop_Suc Suc_diff_Suc take_Suc_Cons)
    show ?thesis
      using Suc.hyps(1) [OF d Suc.prems(1), of "fs @ [X_norm ! k]" "ls @ [class_vector (groups ! k)]"]
        True kn
      by (auto simp: up t1 t2 Let_def)
  next
    case False
    then show ?thesis using kn by (simp add: up)
  qed
qed

lemma feature_cells_selected:
  "getitem_columns \<lparr>df_columns = ''Cgroup'' # columns, df_rows = map (selected df) (loaded_rows df)\<rparr>
     columns = Inr (feature_cells df)"
  unfolding feature_cells_def by (rule select_features)

lemma make_dataset_eq:
  assumes "read_csv (path_join dir ''yeast_his3.csv'') = Inr df"
  shows "make_dataset read_csv fit_transform dir =
           (if \<not> has_columns df then Inl KeyError
            else case fit_transform (feature_cells df) of
                   Inl e \<Rightarrow> Inl e
                 | Inr X_norm \<Rightarrow>
                     if length X_norm < length (loaded_rows df) then Inl IndexError
                     else Inr (take (length (loaded_rows df)) X_norm,
                               map (\<lambda>r. class_vector (field df r ''Cgroup'')) (loaded_rows df)))"
proof (cases "has_columns df")
  case False
  then show ?thesis
    by (simp add: make_dataset_def assms select_ten_missing)
next
  case True
  show ?thesis
    unfolding make_dataset_def assms
    by (simp add: True select_ten drop_null_selected feature_cells_selected select_groups
        Let_def dataset_loop_range comp_def not_less split: sum.splits)
qed

text \<open>
  When the table has the ten columns and the scaler returns a matrix with a row for
  every loaded row, \<open>make_dataset\<close> returns: the first rows of that matrix, and the
  class vectors of the loaded rows.
\<close>

lemma make_dataset_returns:
  assumes "read_csv (path_join dir ''yeast_his3.csv'') = Inr df"
    and "has_columns df"
    and "fit_transform (feature_cells df) = Inr X_norm"
    and "length (loaded_rows df) \<le> length X_norm"
  shows "make_dataset read_csv fit_transform dir =
           Inr (take (length (loaded_rows df)) X_norm,
                map (\<lambda>r. class_vector (field df r ''Cgroup'')) (loaded_rows df))"
  unfolding make_dataset_eq [where read_csv = read_csv and dir = dir and df = df, OF assms(1)]
  using assms(2-4) by simp

lemma example_run:
  "make_dataset example_read_csv no_scaling ''data'' =
     Inr ([[1, 2, 3, 4, 5, 6, 7, 8, 9], [2, 2, 2, 2, 2, 2, 2, 2, 2], [4, 4, 4, 4, 4, 4, 4, 4, 4]],
          [[0, 1, 0, 0], [0, 0, 0, 0], [0, 0, 0, 1]])"
  by (simp add: make_dataset_def example_read_csv_def example_table_def no_scaling_def path_join_def
      getitem_columns_def getitem_column_def columns_def cell_at_def drop_null_rows_def null_count_def
      isnull_def class_vector_def)

lemma example_loaded:
  "loaded_rows example_table =
        [[Num 1, NaN, Num 2, Num 3, Num 4, Num 5, Num 6, Num 7, Num 8, Num 9, Str ''small''],
         [Num 2, Num 0, Num 2, Num 2, Num 2, Num 2, Num 2, Num 2, Num 2, Num 2, Str ''huge''],
         [Num 4, Num 0, Num 4, Num 4, Num 4, Num 4, Num 4, Num 4, Num 4, Num 4, Str ''large'']]"
  by (simp add: loaded_rows_def example_table_def selected_def field_def cell_at_def columns_def)

lemma example_read: "example_read_csv (path_join ''data'' ''yeast_his3.csv'') = Inr example_table"
  by (simp add: example_read_csv_def path_join_def)

lemma example_group:
  "map (\<lambda>r. field example_table r ''Cgroup'') (loaded_rows example_table)
     = [Str ''small'', Str ''huge'', Str ''large'']"
  by (simp add: example_loaded) (simp add: field_def example_table_def cell_at_def)

lemma example_has_columns: "has_columns example_table"
  by (simp add: has_columns_def example_table_def columns_def)

lemma example_scaled:
  "no_scaling (feature_cells example_table) =
     Inr [[1, 2, 3, 4, 5, 6, 7, 8, 9], [2, 2, 2, 2, 2, 2, 2, 2, 2], [4, 4, 4, 4, 4, 4, 4, 4, 4]]"
  by (simp add: no_scaling_def feature_cells_def example_loaded)
     (simp add: field_def example_table_def cell_at_def columns_def)

lemma class_vector_class:
  "k < 4 \<Longrightarrow> class_vector (Str (classes ! k)) = (replicate 4 0)[k := 1]"
proof -
  assume "k < 4"
  then have "k = 0 \<or> k = 1 \<or> k = 2 \<or> k = 3" by arith
  then show ?thesis
    by (auto simp: class_vector_def classes_def numeral_eq_Suc)
qed

lemma class_vector_other:
  "c \<notin> set (map Str classes) \<Longrightarrow> class_vector c = [0, 0, 0, 0]"
  by (simp add: class_vector_def classes_def)

subsection \<open>Labels\<close>

text \<open>
  C5.  When the table has the ten columns and the scaler returns (a matrix with a row
  for every loaded row), \<open>make_dataset\<close> returns, with a label for every loaded row;
  and the label of a loaded row whose \<open>Cgroup\<close> is the \<open>k\<close>-th of \<open>no\<close>, \<open>small\<close>,
  \<open>medium\<close>, \<open>large\<close> has length 4, with 1 at index \<open>k\<close> and 0 at the three other
  indices.
\<close>

theorem make_dataset_one_hot:
  assumes "read_csv (path_join dir ''yeast_his3.csv'') = Inr df"
    and "has_columns df"
    and "fit_transform (feature_cells df) = Inr X_norm"
    and "length (loaded_rows df) \<le> length X_norm"
    and "i < length (loaded_rows df)"
    and "k < 4"
    and "field df (loaded_rows df ! i) ''Cgroup'' = Str (classes ! k)"
  shows "\<exists>features labels.
           make_dataset read_csv fit_transform dir = Inr (features, labels) \<and>
           length features = length (loaded_rows df) \<and> length labels = length (loaded_rows df) \<and>
           length (labels ! i) = 4 \<and> labels ! i = (replicate 4 0)[k := 1] \<and>
           labels ! i ! k = 1 \<and> (\<forall>j<4. j \<noteq> k \<longrightarrow> labels ! i ! j = 0)"
proof -
  let ?labels = "map (\<lambda>r. class_vector (field df r ''Cgroup'')) (loaded_rows df)"
  have r: "make_dataset read_csv fit_transform dir =
      Inr (take (length (loaded_rows df)) X_norm, ?labels)"
    by (rule make_dataset_returns [where read_csv = read_csv and dir = dir and df = df
          and fit_transform = fit_transform, OF assms(1-4)])
  have "?labels ! i = class_vector (Str (classes ! k))"
    using assms(5,7) by simp
  then have l: "?labels ! i = (replicate 4 0)[k := 1]"
    using assms(6) by (simp add: class_vector_class)
  have "length (take (length (loaded_rows df)) X_norm) = length (loaded_rows df)"
    using assms(4) by simp
  moreover have "length ?labels = length (loaded_rows df)" by simp
  moreover have "length (?labels ! i) = 4" unfolding l by simp
  moreover have "?labels ! i ! k = 1" unfolding l using assms(6) by simp
  moreover have "\<forall>j<4. j \<noteq> k \<longrightarrow> ?labels ! i ! j = 0" unfolding l by simp
  ultimately show ?thesis using r l by blast
qed

text \<open>The fourth row of the small table, third of the loaded rows, is \<open>large\<close>.\<close>

theorem make_dataset_one_hot_witness:
  "\<exists>features labels.
     make_dataset example_read_csv no_scaling ''data'' = Inr (features, labels) \<and>
     length labels = length (loaded_rows example_table) \<and>
     length (labels ! 2) = 4 \<and> labels ! 2 = (replicate 4 0)[3 := 1] \<and> labels ! 2 ! 3 = 1"
proof -
  have g: "field example_table (loaded_rows example_table ! 2) ''Cgroup'' = Str (classes ! 3)"
    using example_group by (simp add: example_loaded classes_def)
  have i: "2 < length (loaded_rows example_table)" by (simp add: example_loaded)
  have l: "length (loaded_rows example_table)
      \<le> length [[1, 2, 3, 4, 5, 6, 7, 8, 9], [2, 2, 2, 2, 2, 2, 2, 2, 2], [4, 4, 4, 4, 4, 4, 4, 4, 4 :: real]]"
    by (simp add: example_loaded)
  have k: "(3 :: nat) < 4" by simp
  from make_dataset_one_hot [where read_csv = example_read_csv and dir = "''data''"
      and df = example_table and fit_transform = no_scaling and i = 2 and k = 3,
      OF example_read example_has_columns example_scaled l i k g]
  show ?thesis by blast
qed

text \<open>
  C2.  A loaded row whose \<open>Cgroup\<close> is none of the four names gets the label
  \<open>[0, 0, 0, 0]\<close>: when the table has the ten columns and the scaler returns (a matrix
  with a row for every loaded row), the call returns, whatever the groups are, with
  one feature row and one label for every loaded row, so nothing is raised for that row
  and the row is not skipped.
\<close>

theorem make_dataset_unknown_group:
  assumes "read_csv (path_join dir ''yeast_his3.csv'') = Inr df"
    and "has_columns df"
    and "fit_transform (feature_cells df) = Inr X_norm"
    and "length (loaded_rows df) \<le> length X_norm"
    and "i < length (loaded_rows df)"
    and "field df (loaded_rows df ! i) ''Cgroup'' \<notin> set (map Str classes)"
  shows "\<exists>features labels.
           make_dataset read_csv fit_transform dir = Inr (features, labels) \<and>
           length features = length (loaded_rows df) \<and> length labels = length (loaded_rows df) \<and>
           labels ! i = [0, 0, 0, 0]"
  unfolding make_dataset_returns [where read_csv = read_csv and dir = dir and df = df
      and fit_transform = fit_transform, OF assms(1-4)]
  using assms(4,5) class_vector_other [OF assms(6)] by simp

text \<open>The second row of the small table is \<open>huge\<close>.\<close>

theorem make_dataset_unknown_group_witness:
  "\<exists>features labels.
     make_dataset example_read_csv no_scaling ''data'' = Inr (features, labels) \<and>
     length features = length (loaded_rows example_table) \<and>
     length labels = length (loaded_rows example_table) \<and> labels ! 1 = [0, 0, 0, 0]"
proof -
  have g: "field example_table (loaded_rows example_table ! 1) ''Cgroup'' \<notin> set (map Str classes)"
    using example_group by (simp add: example_loaded classes_def)
  have i: "1 < length (loaded_rows example_table)" by (simp add: example_loaded)
  have l: "length (loaded_rows example_table)
      \<le> length [[1, 2, 3, 4, 5, 6, 7, 8, 9], [2, 2, 2, 2, 2, 2, 2, 2, 2], [4, 4, 4, 4, 4, 4, 4, 4, 4 :: real]]"
    by (simp add: example_loaded)
  show ?thesis
    by (rule make_dataset_unknown_group [where read_csv = example_read_csv and dir = "''data''"
        and df = example_table and fit_transform = no_scaling and i = 1,
        OF example_read example_has_columns example_scaled l i g])
qed

subsection \<open>Rows kept and rows dropped\<close>


lemma field_rows_update [simp]: "field (df\<lparr>df_rows := rs\<rparr>) = field df"
  by (simp add: field_def fun_eq_iff)



lemma has_columns_rows_update [simp]: "has_columns (df\<lparr>df_rows := rs\<rparr>) = has_columns df"
  by (simp add: has_columns_def)





subsection \<open>The split\<close>

lemma n_test_fifth: "nat \<lceil>(20 / 100) * real n\<rceil> = (n + 4) div 5"
proof -
  have "(20 / 100) * real n = real_of_int (int n) / real_of_int 5" by simp
  then have "\<lceil>(20 / 100) * real n\<rceil> = - (- int n div 5)"
    by (simp only: ceiling_divide_eq_div)
  then show ?thesis by simp
qed

lemma n_test_quarter: "nat \<lceil>(25 / 100) * real n\<rceil> = (n + 3) div 4"
proof -
  have "(25 / 100) * real n = real_of_int (int n) / real_of_int 4" by simp
  then have "\<lceil>(25 / 100) * real n\<rceil> = - (- int n div 4)"
    by (simp only: ceiling_divide_eq_div)
  then show ?thesis by simp
qed

lemma train_test_split_perm:
  assumes "length y = length X" and "0 < t" and "t < 1"
    and "nat \<lceil>t * real (length X)\<rceil> = k" and "k < length X"
    and "length perm = length X"
  shows "train_test_split perm X y t =
           Inr (map ((!) X) (drop k perm), map ((!) X) (take k perm),
                map ((!) y) (drop k perm), map ((!) y) (take k perm))"
  using assms by (simp add: train_test_split_def Let_def safe_indexing_def)

lemma map_nth_map:
  "\<forall>i \<in> set js. i < length xs \<Longrightarrow> map ((!) (map f xs)) js = map f (map ((!) xs) js)"
  by (induction js) simp_all

lemma perm_length: "mset p = mset [0..<n] \<Longrightarrow> length p = n"
  by (metis length_upt mset_eq_length minus_nat.diff_0)

lemma perm_set: "mset p = mset [0..<n] \<Longrightarrow> set p = {0..<n}"
  by (metis mset_eq_setD set_upt)

lemma mset_map_nth_perm:
  assumes "mset p = mset [0..<length xs]"
  shows "mset (map ((!) xs) p) = mset xs"
proof -
  have "mset (map ((!) xs) p) = image_mset ((!) xs) (mset p)" by simp
  also have "\<dots> = mset (map ((!) xs) [0..<length xs])" by (simp add: assms)
  also have "\<dots> = mset xs" by (simp add: map_nth)
  finally show ?thesis .
qed

lemma split_cell_indices:
  assumes len: "length y = length X" and n3: "3 \<le> length X"
    and p1: "mset perm1 = mset [0..<length X]"
    and p2: "mset perm2 = mset [0..<length X - (length X + 4) div 5]"
  defines "k1 \<equiv> (length X + 4) div 5"
  defines "tmp \<equiv> drop k1 perm1"
  defines "k2 \<equiv> (length X - k1 + 3) div 4"
  shows "split_cell perm1 perm2 X y =
           Inr \<lparr>X_train = map ((!) X) (map ((!) tmp) (drop k2 perm2)),
                y_train = map ((!) y) (map ((!) tmp) (drop k2 perm2)),
                X_val = map ((!) X) (map ((!) tmp) (take k2 perm2)),
                y_val = map ((!) y) (map ((!) tmp) (take k2 perm2)),
                X_test = map ((!) X) (take k1 perm1),
                y_test = map ((!) y) (take k1 perm1)\<rparr>"
    and "mset (map ((!) tmp) (drop k2 perm2) @ map ((!) tmp) (take k2 perm2) @ take k1 perm1)
           = mset [0..<length X]"
proof -
  have l1: "length perm1 = length X" using p1 by (rule perm_length)
  have k1: "k1 < length X" using n3 unfolding k1_def by arith
  have ltmp: "length tmp = length X - k1" by (simp add: tmp_def l1)
  have l2: "length perm2 = length X - k1" using p2 unfolding k1_def by (rule perm_length)
  have k2: "k2 < length X - k1" using n3 unfolding k2_def k1_def by arith
  have s2: "set perm2 = {0..<length tmp}" using p2 ltmp unfolding k1_def by (simp add: perm_set)
  have t1: "nat \<lceil>(20 / 100) * real (length X)\<rceil> = k1"
    unfolding k1_def by (rule n_test_fifth)
  have t2: "nat \<lceil>(25 / 100) * real (length (map ((!) X) tmp))\<rceil> = k2"
    unfolding k2_def length_map ltmp by (rule n_test_quarter)
  have first: "train_test_split perm1 X y (20 / 100) =
      Inr (map ((!) X) tmp, map ((!) X) (take k1 perm1), map ((!) y) tmp, map ((!) y) (take k1 perm1))"
    unfolding tmp_def
    by (rule train_test_split_perm [OF len _ _ t1 k1 l1]) simp_all
  have second: "train_test_split perm2 (map ((!) X) tmp) (map ((!) y) tmp) (25 / 100) =
      Inr (map ((!) (map ((!) X) tmp)) (drop k2 perm2), map ((!) (map ((!) X) tmp)) (take k2 perm2),
           map ((!) (map ((!) y) tmp)) (drop k2 perm2), map ((!) (map ((!) y) tmp)) (take k2 perm2))"
    by (rule train_test_split_perm [OF _ _ _ t2]) (simp_all add: ltmp k2 l2)
  have in_d: "\<forall>i \<in> set (drop k2 perm2). i < length tmp"
    using s2 by (metis atLeastLessThan_iff in_set_dropD)
  have in_t: "\<forall>i \<in> set (take k2 perm2). i < length tmp"
    using s2 by (metis atLeastLessThan_iff in_set_takeD)
  show "split_cell perm1 perm2 X y =
           Inr \<lparr>X_train = map ((!) X) (map ((!) tmp) (drop k2 perm2)),
                y_train = map ((!) y) (map ((!) tmp) (drop k2 perm2)),
                X_val = map ((!) X) (map ((!) tmp) (take k2 perm2)),
                y_val = map ((!) y) (map ((!) tmp) (take k2 perm2)),
                X_test = map ((!) X) (take k1 perm1),
                y_test = map ((!) y) (take k1 perm1)\<rparr>"
    by (simp only: split_cell_def first bind_err_def sum.case prod.case second
        map_nth_map [OF in_d] map_nth_map [OF in_t])
  have "mset (map ((!) tmp) (drop k2 perm2) @ map ((!) tmp) (take k2 perm2))
          = mset (map ((!) tmp) (take k2 perm2 @ drop k2 perm2))"
    by (simp only: map_append mset_append add.commute)
  also have "\<dots> = mset tmp"
    using p2 ltmp by (simp only: append_take_drop_id k1_def [symmetric] mset_map_nth_perm)
  finally have "mset (map ((!) tmp) (drop k2 perm2) @ map ((!) tmp) (take k2 perm2)) = mset tmp" .
  then have "mset ((map ((!) tmp) (drop k2 perm2) @ map ((!) tmp) (take k2 perm2)) @ take k1 perm1)
      = mset tmp + mset (take k1 perm1)"
    by (simp only: mset_append)
  also have "\<dots> = mset (take k1 perm1 @ drop k1 perm1)"
    by (simp only: tmp_def mset_append add.commute)
  finally have "mset (map ((!) tmp) (drop k2 perm2) @ map ((!) tmp) (take k2 perm2) @ take k1 perm1)
      = mset (take k1 perm1 @ drop k1 perm1)"
    by (simp only: append_assoc)
  then show "mset (map ((!) tmp) (drop k2 perm2) @ map ((!) tmp) (take k2 perm2) @ take k1 perm1)
           = mset [0..<length X]"
    by (simp only: append_take_drop_id p1)
qed


lemma split_sizes:
  fixes n :: nat
  assumes "5 dvd n"
  shows "5 * ((n + 4) div 5) = n" and "5 * ((n - (n + 4) div 5 + 3) div 4) = n"
    and "5 * (n - (n + 4) div 5 - (n - (n + 4) div 5 + 3) div 4) = 3 * n"
proof -
  from assms obtain q where q: "n = 5 * q" by (auto simp: dvd_def)
  have a: "(n + 4) div 5 = q" unfolding q by simp
  have b: "(n - (n + 4) div 5 + 3) div 4 = q" unfolding a unfolding q by simp
  show "5 * ((n + 4) div 5) = n" using a q by simp
  show "5 * ((n - (n + 4) div 5 + 3) div 4) = n" using b q by simp
  show "5 * (n - (n + 4) div 5 - (n - (n + 4) div 5 + 3) div 4) = 3 * n"
    unfolding b unfolding a unfolding q by simp
qed

text \<open>
  C3, as stated, fails on the sizes: seven samples are split 3, 2, 2, which is not 60%,
  20%, 20% of seven (and no split of seven is).
\<close>

theorem split_cell_seven:
  "split_cell [0, 1, 2, 3, 4, 5, 6] [0, 1, 2, 3, 4] ''abcdefg'' [10, 11, 12, 13, 14, 15, 16 :: int]
     = Inr \<lparr>X_train = ''efg'', y_train = [14, 15, 16], X_val = ''cd'', y_val = [12, 13],
            X_test = ''ab'', y_test = [10, 11]\<rparr> \<and>
   5 * length ''efg'' \<noteq> 3 * length ''abcdefg'' \<and>
   5 * length ''cd'' \<noteq> length ''abcdefg'' \<and>
   5 * length ''ab'' \<noteq> length ''abcdefg''"
  by (simp add: split_cell_def train_test_split_def safe_indexing_def)

text \<open>
  C3, amended.  With at least three samples (fewer make \<open>train_test_split\<close> raise
  \<open>ValueError\<close>), whatever permutations are drawn, the split returns, and the three
  parts are the samples at three lists of indices that are pairwise disjoint, without
  repetition, and together all of \<open>0..<n\<close>: every sample, with its label, is in
  exactly one part.  The test part has \<open>\<lceil>n/5\<rceil>\<close> samples, the validation part
  \<open>\<lceil>(n - \<lceil>n/5\<rceil>)/4\<rceil>\<close>, the training part the rest; these are 20%, 20% and 60%
  of \<open>n\<close> exactly when \<open>n\<close> is a multiple of 5.
\<close>

theorem split_cell_partition:
  assumes "length y = length X" and "3 \<le> length X"
    and "mset perm1 = mset [0..<length X]"
    and "mset perm2 = mset [0..<length X - (length X + 4) div 5]"
  shows "\<exists>sp itr iva ite.
           split_cell perm1 perm2 X y = Inr sp \<and>
           X_train sp = map ((!) X) itr \<and> y_train sp = map ((!) y) itr \<and>
           X_val sp = map ((!) X) iva \<and> y_val sp = map ((!) y) iva \<and>
           X_test sp = map ((!) X) ite \<and> y_test sp = map ((!) y) ite \<and>
           distinct (itr @ iva @ ite) \<and> set (itr @ iva @ ite) = {0..<length X} \<and>
           length ite = (length X + 4) div 5 \<and>
           length iva = (length X - (length X + 4) div 5 + 3) div 4 \<and>
           length itr = length X - length ite - length iva \<and>
           (5 dvd length X \<longrightarrow>
              5 * length itr = 3 * length X \<and> 5 * length iva = length X \<and>
              5 * length ite = length X)"
proof -
  define k1 where "k1 = (length X + 4) div 5"
  define tmp where "tmp = drop k1 perm1"
  define k2 where "k2 = (length X - k1 + 3) div 4"
  define itr where "itr = map ((!) tmp) (drop k2 perm2)"
  define iva where "iva = map ((!) tmp) (take k2 perm2)"
  define ite where "ite = take k1 perm1"
  note ix = split_cell_indices [OF assms, folded k1_def, folded tmp_def k2_def,
      folded itr_def iva_def ite_def]
  have l1: "length perm1 = length X" using assms(3) by (rule perm_length)
  have l2: "length perm2 = length X - k1" using assms(4) unfolding k1_def by (rule perm_length)
  have k1: "k1 < length X" using assms(2) unfolding k1_def by arith
  have k2: "k2 < length X - k1" using assms(2) unfolding k2_def k1_def by arith
  have lte: "length ite = k1" using k1 by (simp add: ite_def l1)
  have lva: "length iva = k2" using k2 by (simp add: iva_def l2)
  have ltr: "length itr = length X - k1 - k2" by (simp add: itr_def l2)
  have d: "distinct (itr @ iva @ ite)"
    using mset_eq_imp_distinct_iff [OF ix(2)] by simp
  have s: "set (itr @ iva @ ite) = {0..<length X}"
    using mset_eq_setD [OF ix(2)] by simp
  define sp where "sp = \<lparr>X_train = map ((!) X) itr, y_train = map ((!) y) itr,
      X_val = map ((!) X) iva, y_val = map ((!) y) iva,
      X_test = map ((!) X) ite, y_test = map ((!) y) ite\<rparr>"
  have r: "split_cell perm1 perm2 X y = Inr sp" unfolding sp_def by (rule ix(1))
  have e1: "length ite = (length X + 4) div 5" unfolding lte k1_def ..
  have e2: "length iva = (length X - (length X + 4) div 5 + 3) div 4" unfolding lva k2_def k1_def ..
  have e3: "length itr = length X - length ite - length iva" unfolding lte lva ltr ..
  have five: "5 dvd length X \<longrightarrow>
      5 * length itr = 3 * length X \<and> 5 * length iva = length X \<and> 5 * length ite = length X"
    unfolding lte lva ltr k2_def k1_def using split_sizes [of "length X"] by (intro impI conjI)
  show ?thesis
    apply (rule exI [where x = sp])
    apply (rule exI [where x = itr])
    apply (rule exI [where x = iva])
    apply (rule exI [where x = ite])
    apply (intro conjI)
                apply (rule r)
               apply (simp add: sp_def)
              apply (simp add: sp_def)
             apply (simp add: sp_def)
            apply (simp add: sp_def)
           apply (simp add: sp_def)
          apply (simp add: sp_def)
         apply (rule d)
        apply (rule s)
       apply (rule e1)
      apply (rule e2)
     apply (rule e3)
    apply (rule five)
    done
qed

text \<open>Five samples, with permutations that are not the identity.\<close>

theorem split_cell_partition_witness:
  "\<exists>sp itr iva ite.
     split_cell [4, 3, 2, 1, 0] [1, 0, 3, 2] ''abcde'' [10, 11, 12, 13, 14 :: int] = Inr sp \<and>
     X_train sp = map ((!) ''abcde'') itr \<and> y_train sp = map ((!) [10, 11, 12, 13, 14]) itr \<and>
     X_val sp = map ((!) ''abcde'') iva \<and> y_val sp = map ((!) [10, 11, 12, 13, 14]) iva \<and>
     X_test sp = map ((!) ''abcde'') ite \<and> y_test sp = map ((!) [10, 11, 12, 13, 14]) ite \<and>
     distinct (itr @ iva @ ite) \<and> set (itr @ iva @ ite) = {0..<5} \<and>
     length itr = 3 \<and> length iva = 1 \<and> length ite = 1"
proof -
  have p1: "mset [4, 3, 2, 1, 0] = mset [0..<length ''abcde'']"
    by code_simp
  have p2: "mset [1, 0, 3, 2] = mset [0..<length ''abcde'' - (length ''abcde'' + 4) div 5]"
    by code_simp
  have l: "length [10, 11, 12, 13, 14 :: int] = length ''abcde''" by simp
  have n: "3 \<le> length ''abcde''" by simp
  from split_cell_partition [OF l n p1 p2]
  obtain sp itr iva ite where
    h: "split_cell [4, 3, 2, 1, 0] [1, 0, 3, 2] ''abcde'' [10, 11, 12, 13, 14 :: int] = Inr sp"
      "X_train sp = map ((!) ''abcde'') itr" "y_train sp = map ((!) [10, 11, 12, 13, 14]) itr"
      "X_val sp = map ((!) ''abcde'') iva" "y_val sp = map ((!) [10, 11, 12, 13, 14]) iva"
      "X_test sp = map ((!) ''abcde'') ite" "y_test sp = map ((!) [10, 11, 12, 13, 14]) ite"
      "distinct (itr @ iva @ ite)" "set (itr @ iva @ ite) = {0..<length ''abcde''}"
    and five: "5 dvd length ''abcde'' \<longrightarrow>
       5 * length itr = 3 * length ''abcde'' \<and> 5 * length iva = length ''abcde'' \<and>
       5 * length ite = length ''abcde''"
    by blast
  have len5: "length ''abcde'' = 5" by simp
  have "length itr = 3" "length iva = 1" "length ite = 1" using five unfolding len5 by simp_all
  with h show ?thesis unfolding len5 by blast
qed

lemma split_cell_five:
  "split_cell [4, 3, 2, 1, 0] [1, 0, 3, 2] ''abcde'' [10, 11, 12, 13, 14 :: int]
     = Inr \<lparr>X_train = ''dab'', y_train = [13, 10, 11], X_val = ''c'', y_val = [12],
            X_test = ''e'', y_test = [14]\<rparr>"
  by (simp add: split_cell_def train_test_split_def safe_indexing_def)

subsection \<open>The scaler\<close>

lemma sum_list_shift:
  "sum_list (map (\<lambda>x. (x - m) / s) xs) = (sum_list xs - real (length xs) * m) / (s :: real)"
  by (induction xs) (simp_all add: add_divide_distrib diff_divide_distrib algebra_simps)

lemma col_mean_standardized:
  assumes "xs \<noteq> []"
  shows "col_mean (map (\<lambda>x. (x - col_mean xs) / s) xs) = 0"
  using assms by (simp add: col_mean_def [of "map f xs" for f] sum_list_shift) (simp add: col_mean_def)

lemma col_var_nonneg: "0 \<le> col_var xs"
  by (auto simp: col_var_def col_mean_def intro!: divide_nonneg_nonneg sum_list_nonneg)

lemma sum_list_scaled_squares:
  "sum_list (map (\<lambda>x. ((x - m) / s)\<^sup>2) xs) = sum_list (map (\<lambda>x. (x - m)\<^sup>2) xs) / (s :: real)\<^sup>2"
  by (induction xs) (simp_all add: power_divide add_divide_distrib)

lemma col_var_standardized:
  assumes "xs \<noteq> []"
  shows "col_var (map (\<lambda>x. (x - col_mean xs) / col_scale xs) xs) = (if col_var xs = 0 then 0 else 1)"
proof -
  let ?zs = "map (\<lambda>x. (x - col_mean xs) / col_scale xs) xs"
  have m: "col_mean ?zs = 0" by (rule col_mean_standardized [OF assms])
  have "col_var ?zs = sum_list (map (\<lambda>x. ((x - col_mean xs) / col_scale xs)\<^sup>2) xs) / real (length xs)"
    unfolding col_var_def m by (simp add: col_mean_def comp_def)
  also have "\<dots> = col_var xs / (col_scale xs)\<^sup>2"
    unfolding sum_list_scaled_squares by (simp add: col_var_def col_mean_def)
  finally have v: "col_var ?zs = col_var xs / (col_scale xs)\<^sup>2" .
  show ?thesis
  proof (cases "col_var xs = 0")
    case True
    then show ?thesis using v by simp
  next
    case False
    then have "(col_scale xs)\<^sup>2 = col_var xs"
      using col_var_nonneg [of xs] by (simp add: col_scale_def)
    then show ?thesis using v False by simp
  qed
qed


lemma sum_list_squares_zero:
  "sum_list (map (\<lambda>x. (x - m)\<^sup>2) xs) = 0 \<longleftrightarrow> (\<forall>x\<in>set xs. x = (m :: real))"
proof (induction xs)
  case Nil
  then show ?case by simp
next
  case (Cons a xs)
  have "0 \<le> (a - m)\<^sup>2" by simp
  moreover have "0 \<le> sum_list (map (\<lambda>x. (x - m)\<^sup>2) xs)" by (auto intro!: sum_list_nonneg)
  ultimately have "(a - m)\<^sup>2 + sum_list (map (\<lambda>x. (x - m)\<^sup>2) xs) = 0
      \<longleftrightarrow> (a - m)\<^sup>2 = 0 \<and> sum_list (map (\<lambda>x. (x - m)\<^sup>2) xs) = 0"
    by (rule add_nonneg_eq_0_iff)
  then show ?case using Cons.IH by simp
qed

lemma col_mean_constant:
  assumes "xs \<noteq> []" and "\<forall>x\<in>set xs. x = c"
  shows "col_mean xs = c"
proof -
  have "sum_list xs = real (length xs) * c" using assms(2) by (induction xs) (simp_all add: algebra_simps)
  then show ?thesis using assms(1) by (simp add: col_mean_def)
qed

lemma col_var_zero_iff:
  assumes "xs \<noteq> []"
  shows "col_var xs = 0 \<longleftrightarrow> list_all (\<lambda>x. x = hd xs) xs"
proof
  assume "col_var xs = 0"
  then have "sum_list (map (\<lambda>x. (x - col_mean xs)\<^sup>2) xs) = 0"
    using assms by (simp add: col_var_def col_mean_def [of "map f xs" for f])
  then have a: "\<forall>x\<in>set xs. x = col_mean xs" by (simp only: sum_list_squares_zero)
  then have "hd xs = col_mean xs" using assms by simp
  then show "list_all (\<lambda>x. x = hd xs) xs" using a by (simp add: list_all_iff)
next
  assume "list_all (\<lambda>x. x = hd xs) xs"
  then have c: "\<forall>x\<in>set xs. x = hd xs" by (simp add: list_all_iff)
  have m: "col_mean xs = hd xs" by (rule col_mean_constant [OF assms c])
  have "sum_list (map (\<lambda>x. (x - col_mean xs)\<^sup>2) xs) = 0"
    unfolding m sum_list_squares_zero by (rule c)
  then show "col_var xs = 0" by (simp add: col_var_def col_mean_def [of "map f xs" for f])
qed

lemma column_standardize:
  assumes "\<forall>r\<in>set M. j < length r"
  shows "column (standardize M) j =
           map (\<lambda>x. (x - col_mean (column M j)) / col_scale (column M j)) (column M j)"
  using assms by (simp add: column_def standardize_def comp_def)

lemma nth_standardize:
  assumes "i < length M" and "j < length (M ! i)"
  shows "standardize M ! i ! j = (M ! i ! j - col_mean (column M j)) / col_scale (column M j)"
  using assms by (simp add: standardize_def)

lemma length_standardize [simp]: "length (standardize M) = length M"
  by (simp add: standardize_def)

lemma those_map_if:
  "those (map g xs) = (if list_all (\<lambda>x. g x \<noteq> None) xs then Some (map (\<lambda>x. the (g x)) xs) else None)"
  using those_map_Some [of g xs] those_map_None [of g xs] by simp

lemma those_Some_iff: "those (map g xs) \<noteq> None \<longleftrightarrow> list_all (\<lambda>x. g x \<noteq> None) xs"
  by (simp add: those_map_if)

lemma check_array_feature_cells:
  "check_array float_of_str (feature_cells df) =
     (if loaded_rows df = [] \<or> \<not> numeric_features float_of_str df then Inl ValueError
      else Inr (feature_matrix float_of_str df))"
proof -
  let ?g = "\<lambda>r. those (map (\<lambda>c. to_float float_of_str (field df r c)) columns)"
  have rows: "map (\<lambda>r. those (map (to_float float_of_str) r)) (df_rows (feature_cells df))
      = map ?g (loaded_rows df)"
    by (simp add: feature_cells_def comp_def)
  have all: "list_all (\<lambda>r. ?g r \<noteq> None) (loaded_rows df) = numeric_features float_of_str df"
    by (simp only: numeric_features_def those_Some_iff)
  have vals: "numeric_features float_of_str df \<Longrightarrow>
      map (\<lambda>r. the (?g r)) (loaded_rows df) = feature_matrix float_of_str df"
    by (simp add: numeric_features_def feature_matrix_def those_map_if list_all_iff)
  show ?thesis
    unfolding check_array_def rows those_map_if [of ?g] all
    using vals by (simp add: feature_cells_def)
qed

lemma feature_matrix_shape:
  "length (feature_matrix float_of_str df) = length (loaded_rows df)"
  "\<forall>r\<in>set (feature_matrix float_of_str df). length r = 9"
  by (simp_all add: feature_matrix_def columns_def)

text \<open>No missing field is among those handed to the scaler.\<close>

lemma feature_cells_no_missing:
  "\<forall>r\<in>set (df_rows (feature_cells df)). NaN \<notin> set r"
  by (auto simp add: feature_cells_def loaded_rows_def selected_def list_all_iff)

lemma StandardScaler_feature_cells:
  assumes "loaded_rows df \<noteq> []" and "numeric_features float_of_str df"
  shows "StandardScaler_fit_transform float_of_str (feature_cells df)
           = Inr (standardize (feature_matrix float_of_str df))"
  using assms by (simp add: StandardScaler_fit_transform_def check_array_feature_cells)

subsection \<open>Scaling comes before the split\<close>

lemma scaled_columns:
  assumes "M \<noteq> []" and "\<forall>r\<in>set M. length r = 9" and "j < 9"
  shows "col_mean (column (standardize M) j) = 0"
    and "col_var (column (standardize M) j)
           = (if list_all (\<lambda>x. x = hd (column M j)) (column M j) then 0 else 1)"
proof -
  have jl: "\<forall>r\<in>set M. j < length r" using assms(2,3) by simp
  have ne: "column M j \<noteq> []" using assms(1) by (simp add: column_def)
  show "col_mean (column (standardize M) j) = 0"
    unfolding column_standardize [OF jl] by (rule col_mean_standardized [OF ne])
  show "col_var (column (standardize M) j)
           = (if list_all (\<lambda>x. x = hd (column M j)) (column M j) then 0 else 1)"
    unfolding column_standardize [OF jl] col_var_standardized [OF ne] col_var_zero_iff [OF ne] ..
qed

text \<open>
  C4, as stated, fails for a column that is constant: in the table below the column
  \<open>A123\<close> is 5 in every row.  Its variance is 0, the scaler then divides by 1,
  and the scaled column is 0 in every row: its variance is 0, not 1.
\<close>

theorem constant_column_variance:
  "make_dataset constant_read_csv (StandardScaler_fit_transform float_of_digits) ''data'' =
     Inr ([[- 1, - 1, - 1, - 1, - 1, - 1, - 1, - 1, 0],
           [- 1, - 1, 1, - 1, - 1, - 1, - 1, - 1, 0],
           [1, 1, - 1, 1, 1, 1, 1, 1, 0],
           [1, 1, 1, 1, 1, 1, 1, 1, 0]],
          [[1, 0, 0, 0], [0, 1, 0, 0], [0, 0, 1, 0], [0, 0, 0, 1]]) \<and>
   column [[- 1, - 1, - 1, - 1, - 1, - 1, - 1, - 1, 0],
           [- 1, - 1, 1, - 1, - 1, - 1, - 1, - 1, 0],
           [1, 1, - 1, 1, 1, 1, 1, 1, 0],
           [1, 1, 1, 1, 1, 1, 1, 1, 0]] 8 = [0, 0, 0, 0] \<and>
   col_var [0, 0, 0, 0] = 0 \<and> col_var [0, 0, 0, 0] \<noteq> 1"
  by (simp add: make_dataset_def constant_read_csv_def constant_table_def path_join_def
      getitem_columns_def getitem_column_def columns_def cell_at_def drop_null_rows_def null_count_def
      isnull_def class_vector_def StandardScaler_fit_transform_def check_array_def to_float_def
      standardize_def column_def col_mean_def col_var_def col_scale_def)


text \<open>
  C4, amended.  When the file is read, has the ten columns, every feature field of the
  kept rows converts to a float and at least three rows are kept, the loading cell
  returns.  The features are scaled once, over all kept rows, before either split:
  every entry is its value minus the mean of its column, divided by the scale of its
  column, mean and scale being those of the column over all kept rows.  Every scaled
  column has mean zero; its variance is one unless the column is constant, and zero
  then.  The training, validation and test features are rows of this one scaled
  matrix, at index lists that are pairwise disjoint and together cover all rows, of
  the sizes the two splits give.
\<close>

theorem scaled_once_before_split:
  assumes "read_csv (path_join ''data'' ''yeast_his3.csv'') = Inr df"
    and "has_columns df" and "numeric_features float_of_str df"
    and "3 \<le> length (loaded_rows df)"
    and "mset perm1 = mset [0..<length (loaded_rows df)]"
    and "mset perm2 = mset [0..<length (loaded_rows df) - (length (loaded_rows df) + 4) div 5]"
  shows "\<exists>sp itr iva ite F Z.
           load_and_split read_csv (StandardScaler_fit_transform float_of_str) perm1 perm2 = Inr sp \<and>
           F = feature_matrix float_of_str df \<and> length F = length (loaded_rows df) \<and>
           Z = standardize F \<and> length Z = length F \<and>
           (\<forall>i<length F. \<forall>j<9.
              Z ! i ! j = (F ! i ! j - col_mean (column F j)) / col_scale (column F j)) \<and>
           (\<forall>j<9. col_mean (column Z j) = 0 \<and>
                   col_var (column Z j)
                     = (if list_all (\<lambda>x. x = hd (column F j)) (column F j) then 0 else 1)) \<and>
           X_train sp = map ((!) Z) itr \<and> X_val sp = map ((!) Z) iva \<and>
           X_test sp = map ((!) Z) ite \<and>
           distinct (itr @ iva @ ite) \<and> set (itr @ iva @ ite) = {0..<length F} \<and>
           length ite = (length F + 4) div 5 \<and>
           length iva = (length F - (length F + 4) div 5 + 3) div 4 \<and>
           length itr = length F - length ite - length iva"
proof -
  define F where "F = feature_matrix float_of_str df"
  define Z where "Z = standardize F"
  define y where "y = map (\<lambda>r. class_vector (field df r ''Cgroup'')) (loaded_rows df)"
  define n where "n = length (loaded_rows df)"
  have ne: "loaded_rows df \<noteq> []" using assms(4) by auto
  have lF: "length F = n" unfolding F_def n_def by (rule feature_matrix_shape(1))
  have wF: "\<forall>r\<in>set F. length r = 9" unfolding F_def by (rule feature_matrix_shape(2))
  have Fne: "F \<noteq> []" using lF assms(4) unfolding n_def by auto
  have lZ: "length Z = n" unfolding Z_def using lF by simp
  have sc: "StandardScaler_fit_transform float_of_str (feature_cells df) = Inr Z"
    unfolding Z_def F_def by (rule StandardScaler_feature_cells [OF ne assms(3)])
  have le: "length (loaded_rows df) \<le> length Z" using lZ unfolding n_def by simp
  have md: "make_dataset read_csv (StandardScaler_fit_transform float_of_str) ''data'' = Inr (Z, y)"
    unfolding make_dataset_returns [where read_csv = read_csv and dir = "''data''" and df = df
        and fit_transform = "StandardScaler_fit_transform float_of_str", OF assms(1,2) sc le]
    using lZ by (simp add: y_def n_def)
  have ly: "length y = length Z" using lZ by (simp add: y_def n_def)
  have n3: "3 \<le> length Z" using assms(4) lZ unfolding n_def by simp
  have p1: "mset perm1 = mset [0..<length Z]" using assms(5) lZ unfolding n_def by simp
  have p2: "mset perm2 = mset [0..<length Z - (length Z + 4) div 5]"
    using assms(6) lZ unfolding n_def by simp
  define k1 where "k1 = (length Z + 4) div 5"
  define tmp where "tmp = drop k1 perm1"
  define k2 where "k2 = (length Z - k1 + 3) div 4"
  define itr where "itr = map ((!) tmp) (drop k2 perm2)"
  define iva where "iva = map ((!) tmp) (take k2 perm2)"
  define ite where "ite = take k1 perm1"
  note ix = split_cell_indices [OF ly n3 p1 p2, folded k1_def, folded tmp_def k2_def,
      folded itr_def iva_def ite_def]
  define sp where "sp = \<lparr>X_train = map ((!) Z) itr, y_train = map ((!) y) itr,
      X_val = map ((!) Z) iva, y_val = map ((!) y) iva,
      X_test = map ((!) Z) ite, y_test = map ((!) y) ite\<rparr>"
  have r: "load_and_split read_csv (StandardScaler_fit_transform float_of_str) perm1 perm2 = Inr sp"
    unfolding load_and_split_def md sp_def using ix(1) by simp
  have l1: "length perm1 = length Z" using p1 by (rule perm_length)
  have l2: "length perm2 = length Z - k1" using p2 unfolding k1_def by (rule perm_length)
  have k1: "k1 < length Z" using n3 unfolding k1_def by arith
  have k2: "k2 < length Z - k1" using n3 unfolding k2_def k1_def by arith
  have lte: "length ite = k1" using k1 by (simp add: ite_def l1)
  have lva: "length iva = k2" using k2 by (simp add: iva_def l2)
  have ltr: "length itr = length Z - k1 - k2" by (simp add: itr_def l2)
  have ZF: "length Z = length F" using lZ lF by simp
  have d: "distinct (itr @ iva @ ite)"
    using mset_eq_imp_distinct_iff [OF ix(2)] by simp
  have s: "set (itr @ iva @ ite) = {0..<length F}"
    using mset_eq_setD [OF ix(2)] unfolding ZF by simp
  have e1: "length ite = (length F + 4) div 5" unfolding lte k1_def ZF ..
  have e2: "length iva = (length F - (length F + 4) div 5 + 3) div 4"
    unfolding lva k2_def k1_def ZF ..
  have e3: "length itr = length F - length ite - length iva" unfolding lte lva ltr ZF ..
  have en: "\<forall>i<length F. \<forall>j<9.
      Z ! i ! j = (F ! i ! j - col_mean (column F j)) / col_scale (column F j)"
    unfolding Z_def using wF by (auto intro!: nth_standardize)
  have st: "\<forall>j<9. col_mean (column Z j) = 0 \<and>
      col_var (column Z j) = (if list_all (\<lambda>x. x = hd (column F j)) (column F j) then 0 else 1)"
    unfolding Z_def using scaled_columns [OF Fne wF] by blast
  show ?thesis
    apply (rule exI [where x = sp])
    apply (rule exI [where x = itr])
    apply (rule exI [where x = iva])
    apply (rule exI [where x = ite])
    apply (rule exI [where x = F])
    apply (rule exI [where x = Z])
    apply (intro conjI)
                  apply (rule r)
                 apply (rule F_def)
                apply (simp add: lF n_def)
               apply (rule Z_def)
              apply (rule ZF)
             apply (rule en)
            apply (rule st)
           apply (simp add: sp_def)
          apply (simp add: sp_def)
         apply (simp add: sp_def)
        apply (rule d)
       apply (rule s)
      apply (rule e1)
     apply (rule e2)
    apply (rule e3)
    done
qed

lemma text_read: "text_read_csv (path_join ''data'' ''yeast_his3.csv'') = Inr text_table"
  by (simp add: text_read_csv_def path_join_def)

lemma text_has_columns: "has_columns text_table"
  by (simp add: has_columns_def text_table_def columns_def)

lemma text_loaded:
  "loaded_rows text_table =
     [[Str ''no'', Str ''1'', Num 1, Num 10, Num 1, Num 1, Num 1, Num 1, Num 1, Num 5],
      [Str ''small'', Str ''1'', Num 1, Num 12, Num 1, Num 1, Num 1, Num 1, Num 1, Num 5],
      [Str ''medium'', Str ''3'', Num 3, Num 10, Num 3, Num 3, Num 3, Num 3, Num 3, Num 5],
      [Str ''large'', Str ''3'', Num 3, Num 12, Num 3, Num 3, Num 3, Num 3, Num 3, Num 5]]"
  by (simp add: loaded_rows_def text_table_def selected_def field_def cell_at_def columns_def)

lemma float_of_digits_examples:
  "float_of_digits ''1'' = Some 1" "float_of_digits ''3'' = Some 3" "float_of_digits ''x'' = None"
  by (simp_all add: float_of_digits_def digit_value_def)

lemma text_numeric: "numeric_features float_of_digits text_table"
  by (simp add: numeric_features_def text_loaded)
     (simp add: field_def text_table_def cell_at_def columns_def to_float_def float_of_digits_examples)

lemma text_matrix:
  "feature_matrix float_of_digits text_table =
     [[1, 1, 10, 1, 1, 1, 1, 1, 5], [1, 1, 12, 1, 1, 1, 1, 1, 5],
      [3, 3, 10, 3, 3, 3, 3, 3, 5], [3, 3, 12, 3, 3, 3, 3, 3, 5]]"
  by (simp add: feature_matrix_def text_loaded)
     (simp add: field_def text_table_def cell_at_def columns_def to_float_def float_of_digits_examples)

lemma text_scaled:
  "standardize (feature_matrix float_of_digits text_table) =
     [[- 1, - 1, - 1, - 1, - 1, - 1, - 1, - 1, 0],
      [- 1, - 1, 1, - 1, - 1, - 1, - 1, - 1, 0],
      [1, 1, - 1, 1, 1, 1, 1, 1, 0],
      [1, 1, 1, 1, 1, 1, 1, 1, 0]]"
  unfolding text_matrix
  by (simp add: standardize_def column_def col_mean_def col_var_def col_scale_def)

lemma text_split:
  "load_and_split text_read_csv (StandardScaler_fit_transform float_of_digits) [3, 1, 0, 2] [2, 0, 1] =
     Inr \<lparr>X_train = [[- 1, - 1, 1, - 1, - 1, - 1, - 1, - 1, 0], [- 1, - 1, - 1, - 1, - 1, - 1, - 1, - 1, 0]],
          y_train = [[0, 1, 0, 0], [1, 0, 0, 0]],
          X_val = [[1, 1, - 1, 1, 1, 1, 1, 1, 0]],
          y_val = [[0, 0, 1, 0]],
          X_test = [[1, 1, 1, 1, 1, 1, 1, 1, 0]],
          y_test = [[0, 0, 0, 1]]\<rparr>"
  by (simp add: load_and_split_def make_dataset_def text_read_csv_def text_table_def path_join_def
      getitem_columns_def getitem_column_def columns_def cell_at_def drop_null_rows_def null_count_def
      isnull_def class_vector_def StandardScaler_fit_transform_def check_array_def to_float_def
      float_of_digits_examples standardize_def column_def col_mean_def col_var_def col_scale_def
      split_cell_def train_test_split_def safe_indexing_def)

text \<open>
  On the table whose column \<open>C101\<close> was read as text, with four kept rows: two
  training rows, one validation row, one test row; column 0 gets variance one, the
  constant column 8 variance zero.
\<close>

theorem scaled_once_before_split_witness:
  "\<exists>sp itr iva ite.
     load_and_split text_read_csv (StandardScaler_fit_transform float_of_digits) [3, 1, 0, 2] [2, 0, 1]
       = Inr sp \<and>
     X_train sp = map ((!) (standardize (feature_matrix float_of_digits text_table))) itr \<and>
     X_val sp = map ((!) (standardize (feature_matrix float_of_digits text_table))) iva \<and>
     X_test sp = map ((!) (standardize (feature_matrix float_of_digits text_table))) ite \<and>
     distinct (itr @ iva @ ite) \<and> set (itr @ iva @ ite) = {0..<4} \<and>
     length itr = 2 \<and> length iva = 1 \<and> length ite = 1 \<and>
     col_mean (column (standardize (feature_matrix float_of_digits text_table)) 0) = 0 \<and>
     col_var (column (standardize (feature_matrix float_of_digits text_table)) 0) = 1 \<and>
     col_mean (column (standardize (feature_matrix float_of_digits text_table)) 8) = 0 \<and>
     col_var (column (standardize (feature_matrix float_of_digits text_table)) 8) = 0"
proof -
  have len: "length (loaded_rows text_table) = 4" by (simp add: text_loaded)
  have n: "3 \<le> length (loaded_rows text_table)" by (simp add: len)
  have "mset [3, 1, 0, 2] = mset [0..<4]" by code_simp
  then have p1: "mset [3, 1, 0, 2] = mset [0..<length (loaded_rows text_table)]"
    by (simp only: len)
  have "mset [2, 0, 1] = mset [0..<4 - (4 + 4) div 5]" by code_simp
  then have p2: "mset [2, 0, 1] = mset [0..<length (loaded_rows text_table)
      - (length (loaded_rows text_table) + 4) div 5]"
    by (simp only: len)
  from scaled_once_before_split [where read_csv = text_read_csv and df = text_table
      and float_of_str = float_of_digits,
      OF text_read text_has_columns text_numeric n p1 p2]
  obtain sp itr iva ite F Z where
    r: "load_and_split text_read_csv (StandardScaler_fit_transform float_of_digits) [3, 1, 0, 2] [2, 0, 1]
          = Inr sp"
    and F: "F = feature_matrix float_of_digits text_table" and lF: "length F = length (loaded_rows text_table)"
    and Z: "Z = standardize F"
    and st: "\<forall>j<9. col_mean (column Z j) = 0 \<and>
                   col_var (column Z j)
                     = (if list_all (\<lambda>x. x = hd (column F j)) (column F j) then 0 else 1)"
    and x: "X_train sp = map ((!) Z) itr" "X_val sp = map ((!) Z) iva" "X_test sp = map ((!) Z) ite"
    and d: "distinct (itr @ iva @ ite)" "set (itr @ iva @ ite) = {0..<length F}"
    and sz: "length ite = (length F + 4) div 5"
      "length iva = (length F - (length F + 4) div 5 + 3) div 4"
      "length itr = length F - length ite - length iva"
    by blast
  have lF4: "length F = 4" using lF len by simp
  have c0: "\<not> list_all (\<lambda>x. x = hd (column F 0)) (column F 0)"
    unfolding F text_matrix by (simp add: column_def)
  have c8: "list_all (\<lambda>x. x = hd (column F 8)) (column F 8)"
    unfolding F text_matrix by (simp add: column_def)
  have s0: "col_mean (column Z 0) = 0" "col_var (column Z 0) = 1"
    using st [rule_format, of 0] c0 by simp_all
  have s8: "col_mean (column Z 8) = 0" "col_var (column Z 8) = 0"
    using st [rule_format, of 8] c8 by simp_all
  have sizes: "length itr = 2" "length iva = 1" "length ite = 1"
    using sz unfolding lF4 by simp_all
  have d4: "set (itr @ iva @ ite) = {0..<4}" using d(2) unfolding lF4 .
  show ?thesis
    using r x d(1) d4 s0 s8 sizes unfolding Z F by blast
qed

subsection \<open>Batches\<close>

declare batch_sampler.simps [simp del]

lemma batch_sampler_Nil [simp]: "batch_sampler b [] = []"
  by (simp add: batch_sampler.simps)

lemma batch_sampler_step:
  "0 < b \<Longrightarrow> xs \<noteq> [] \<Longrightarrow> batch_sampler b xs = take b xs # batch_sampler b (drop b xs)"
  by (subst batch_sampler.simps) simp

lemma concat_batch_sampler: "0 < b \<Longrightarrow> concat (batch_sampler b xs) = xs"
proof (induction b xs rule: batch_sampler.induct)
  case (1 b xs)
  show ?case
  proof (cases "xs = []")
    case True
    then show ?thesis by simp
  next
    case False
    with 1 show ?thesis by (simp add: batch_sampler_step)
  qed
qed

lemma batch_sampler_sizes:
  "0 < b \<Longrightarrow> list_all (\<lambda>ys. 0 < length ys \<and> length ys \<le> b) (batch_sampler b xs)"
proof (induction b xs rule: batch_sampler.induct)
  case (1 b xs)
  show ?case
  proof (cases "xs = []")
    case True
    then show ?thesis by simp
  next
    case False
    with 1 show ?thesis by (simp add: batch_sampler_step)
  qed
qed

lemma batch_sampler_full:
  "0 < b \<Longrightarrow> list_all (\<lambda>ys. length ys = b) (butlast (batch_sampler b xs))"
proof (induction b xs rule: batch_sampler.induct)
  case (1 b xs)
  show ?case
  proof (cases "xs = []")
    case True
    then show ?thesis by simp
  next
    case False
    show ?thesis
    proof (cases "drop b xs = []")
      case True
      then show ?thesis using False 1 by (simp add: batch_sampler_step)
    next
      case d: False
      then have "batch_sampler b (drop b xs) \<noteq> []"
        using 1(2) by (simp add: batch_sampler_step [of b "drop b xs"])
      moreover have "b \<le> length xs" using d by (cases "b \<le> length xs") simp_all
      ultimately show ?thesis using False 1 by (simp add: batch_sampler_step)
    qed
  qed
qed

lemma batch_sampler_example: "batch_sampler 2 ''abcde'' = [''ab'', ''cd'', ''e'']"
  by (simp add: batch_sampler_step)

lemma iter_loader_inputs:
  "map fst (iter_loader permutation dl) =
     map (map ((!) (samples (dataset dl)))) (batch_sampler (batch_size dl) (sampler permutation dl))"
  by (simp add: iter_loader_def collate_def getitem_def comp_def)

lemma iter_loader_labels:
  "map snd (iter_loader permutation dl) =
     map (map ((!) (targets (dataset dl)))) (batch_sampler (batch_size dl) (sampler permutation dl))"
  by (simp add: iter_loader_def collate_def getitem_def comp_def)

lemma concat_map_map: "concat (map (map f) xss) = map f (concat xss)"
  by (induction xss) simp_all

lemma iter_loader_concat:
  assumes "0 < batch_size dl"
  shows "concat (map fst (iter_loader permutation dl)) = map ((!) (samples (dataset dl))) (sampler permutation dl)"
    and "concat (map snd (iter_loader permutation dl)) = map ((!) (targets (dataset dl))) (sampler permutation dl)"
  using assms
  by (simp_all only: iter_loader_inputs iter_loader_labels concat_map_map concat_batch_sampler)

lemma iter_loader_sizes:
  assumes "0 < batch_size dl"
  shows "list_all (\<lambda>(xs, ys). length xs = length ys \<and> 0 < length xs \<and> length xs \<le> batch_size dl)
           (iter_loader permutation dl)"
  using batch_sampler_sizes [OF assms, of "sampler permutation dl"]
  by (simp add: iter_loader_def collate_def list_all_iff)

lemma iter_loader_full:
  assumes "0 < batch_size dl"
  shows "list_all (\<lambda>(xs, ys). length xs = batch_size dl) (butlast (iter_loader permutation dl))"
  using batch_sampler_full [OF assms, of "sampler permutation dl"]
  by (simp add: iter_loader_def collate_def list_all_iff map_butlast [symmetric])


lemma dataloaders_fields [simp]:
  "dataset (dataloaders fd ph) = fd ph"
  "batch_size (dataloaders fd ph) = 64"
  "shuffle (dataloaders fd ph) = (ph = Train)"
  by (cases ph; simp add: dataloaders_def batch_size_nb_def)+

lemma sampler_dataloaders:
  "sampler permutation (dataloaders fd ph) = (if ph = Train then permutation else [0..<len (fd ph)])"
  by (simp add: sampler_def)

text \<open>
  C9.  One pass of the loader of a phase yields batches whose inputs, put end to end,
  are the samples of the phase's dataset in the order of the sampler, and whose labels
  are the targets in the same order.  For the training phase the order is the
  permutation drawn for the pass; for validation and test it is \<open>0, 1, \<dots>\<close>, the stored
  order.  In either case the order holds every index of the dataset exactly once.
  Every batch has between 1 and 64 samples, with as many labels, and every batch but
  the last has 64.
\<close>

theorem dataloaders_pass:
  assumes "ph = Train \<longrightarrow> mset permutation = mset [0..<len (fd Train)]"
  shows "let B = iter_loader permutation (dataloaders fd ph);
             order = (if ph = Train then permutation else [0..<len (fd ph)])
         in concat (map fst B) = map ((!) (samples (fd ph))) order \<and>
            concat (map snd B) = map ((!) (targets (fd ph))) order \<and>
            mset order = mset [0..<len (fd ph)] \<and>
            (ph \<noteq> Train \<longrightarrow> concat (map fst B) = samples (fd ph)) \<and>
            list_all (\<lambda>(xs, ys). length xs = length ys \<and> 0 < length xs \<and> length xs \<le> 64) B \<and>
            list_all (\<lambda>(xs, ys). length xs = 64) (butlast B)"
proof -
  have b: "0 < batch_size (dataloaders fd ph)" by simp
  have c1: "concat (map fst (iter_loader permutation (dataloaders fd ph)))
      = map ((!) (samples (fd ph))) (if ph = Train then permutation else [0..<len (fd ph)])"
    using iter_loader_concat(1) [OF b, of permutation] by (simp only: sampler_dataloaders dataloaders_fields)
  have c2: "concat (map snd (iter_loader permutation (dataloaders fd ph)))
      = map ((!) (targets (fd ph))) (if ph = Train then permutation else [0..<len (fd ph)])"
    using iter_loader_concat(2) [OF b, of permutation] by (simp only: sampler_dataloaders dataloaders_fields)
  have m: "mset (if ph = Train then permutation else [0..<len (fd ph)]) = mset [0..<len (fd ph)]"
    using assms by simp
  have s: "ph \<noteq> Train \<longrightarrow> concat (map fst (iter_loader permutation (dataloaders fd ph))) = samples (fd ph)"
    unfolding c1 by (simp add: len_def map_nth)
  have z: "list_all (\<lambda>(xs, ys). length xs = length ys \<and> 0 < length xs \<and> length xs \<le> 64)
      (iter_loader permutation (dataloaders fd ph))"
    using iter_loader_sizes [OF b, of permutation] by (simp only: dataloaders_fields)
  have f: "list_all (\<lambda>(xs, ys). length xs = 64) (butlast (iter_loader permutation (dataloaders fd ph)))"
    using iter_loader_full [OF b, of permutation] by (simp only: dataloaders_fields)
  show ?thesis
    unfolding Let_def using c1 c2 m s z f by (intro conjI)
qed

lemma example_train_pass:
  "iter_loader [2, 0, 1] (dataloaders (feature_datasets example_splits) Train) =
     [([[3], [1], [2]], [[0, 0, 1, 0], [1, 0, 0, 0], [0, 1, 0, 0]])]"
  by (simp add: iter_loader_def dataloaders_def sampler_def batch_size_nb_def batch_sampler_step
      feature_datasets_def example_splits_def collate_def getitem_def)

lemma example_val_pass:
  "iter_loader p (dataloaders (feature_datasets example_splits) Val) =
     [([[4], [5]], [[0, 1, 0, 0], [0, 0, 1, 0]])]"
  by (simp add: iter_loader_def dataloaders_def sampler_def batch_size_nb_def batch_sampler_step
      feature_datasets_def example_splits_def collate_def getitem_def len_def)

lemma example_test_pass:
  "iter_loader p (dataloaders (feature_datasets example_splits) Test) =
     [([[6]], [[0, 0, 0, 1]])]"
  by (simp add: iter_loader_def dataloaders_def sampler_def batch_size_nb_def batch_sampler_step
      feature_datasets_def example_splits_def collate_def getitem_def len_def)

text \<open>The small datasets: training in the drawn order, validation in stored order.\<close>

theorem dataloaders_pass_witness:
  "concat (map fst (iter_loader [2, 0, 1] (dataloaders (feature_datasets example_splits) Train)))
     = [[3], [1], [2]] \<and>
   concat (map snd (iter_loader [2, 0, 1] (dataloaders (feature_datasets example_splits) Train)))
     = [[0, 0, 1, 0], [1, 0, 0, 0], [0, 1, 0, 0]] \<and>
   concat (map fst (iter_loader [2, 0, 1] (dataloaders (feature_datasets example_splits) Val)))
     = [[4], [5]]"
proof -
  have l: "len (feature_datasets example_splits Train) = 3"
    by (simp add: len_def feature_datasets_def example_splits_def)
  have "mset [2, 0, 1] = mset [0..<3]" by code_simp
  then have p: "Train = Train \<longrightarrow> mset [2, 0, 1] = mset [0..<len (feature_datasets example_splits Train)]"
    by (simp only: l simp_thms)
  have q: "Val = Train \<longrightarrow> mset [2, 0, 1] = mset [0..<len (feature_datasets example_splits Train)]"
    by simp
  show ?thesis
    using dataloaders_pass [where fd = "feature_datasets example_splits" and ph = Train, OF p]
      dataloaders_pass [where fd = "feature_datasets example_splits" and ph = Val, OF q]
    by (simp add: Let_def feature_datasets_def example_splits_def len_def)
qed

subsection \<open>The network\<close>

lemma dot_sum:
  "length u = length v \<Longrightarrow> dot u v = (\<Sum>k<length u. u ! k * v ! k)"
proof -
  assume l: "length u = length v"
  have "dot u v = (\<Sum>i = 0..<length (map2 (*) u v). map2 (*) u v ! i)"
    unfolding dot_def by (rule sum_list_sum_nth)
  also have "\<dots> = (\<Sum>k<length u. u ! k * v ! k)"
    using l by (intro sum.cong) (auto simp: lessThan_atLeast0)
  finally show ?thesis .
qed

lemma Linear_call_ok:
  assumes "Linear_ok l" and "length x = in_features l"
  shows "\<exists>out. Linear_call l x = Inr out \<and> length out = out_features l \<and>
           (\<forall>j<out_features l. out ! j = (\<Sum>k<in_features l. x ! k * weight l ! j ! k) + bias l ! j)"
proof -
  let ?out = "map2 (\<lambda>row b. dot x row + b) (weight l) (bias l)"
  have c: "Linear_call l x = Inr ?out" using assms(2) by (simp add: Linear_call_def)
  have len: "length ?out = out_features l" using assms(1) by (simp add: Linear_ok_def)
  have "?out ! j = (\<Sum>k<in_features l. x ! k * weight l ! j ! k) + bias l ! j"
    if j: "j < out_features l" for j
  proof -
    have r: "length (weight l ! j) = in_features l"
      using assms(1) j by (simp add: Linear_ok_def list_all_length)
    have "?out ! j = dot x (weight l ! j) + bias l ! j"
      using assms(1) j by (simp add: Linear_ok_def)
    then show ?thesis using dot_sum [of x "weight l ! j"] r assms(2) by simp
  qed
  then show ?thesis using c len by blast
qed

lemma Linear_call_bad: "length x \<noteq> in_features l \<Longrightarrow> Linear_call l x = Inl RuntimeError"
  by (simp add: Linear_call_def)

text \<open>
  C7.  A \<open>Net\<close> has a first layer with a 9 by 9 weight matrix and a bias of width 9,
  and a second layer with a 4 by 9 matrix and a bias of width 4.  On every input of
  width 9, \<open>forward\<close> returns: the first layer gives the hidden vector \<open>h\<close> of width 9
  with \<open>h\<^sub>i = \<Sum>\<^sub>k x\<^sub>k W1\<^sub>i\<^sub>k + b1\<^sub>i\<close>, and the result is the second layer applied to
  \<open>relu h\<close>: four numbers \<open>out\<^sub>j = \<Sum>\<^sub>k max 0 h\<^sub>k W2\<^sub>j\<^sub>k + b2\<^sub>j\<close>, the affine image
  itself, with nothing applied after it.
\<close>

theorem Net_forward:
  assumes "length x = 9"
    and "Linear_ok (fc1 (Net_init W1 b1 W2 b2))" and "Linear_ok (fc2 (Net_init W1 b1 W2 b2))"
  shows "\<exists>h out.
           Linear_call (fc1 (Net_init W1 b1 W2 b2)) x = Inr h \<and> length h = 9 \<and>
           (\<forall>i<9. h ! i = (\<Sum>k<9. x ! k * W1 ! i ! k) + b1 ! i) \<and>
           forward (Net_init W1 b1 W2 b2) x = Inr out \<and>
           Linear_call (fc2 (Net_init W1 b1 W2 b2)) (relu h) = Inr out \<and> length out = 4 \<and>
           (\<forall>j<4. out ! j = (\<Sum>k<9. max 0 (h ! k) * W2 ! j ! k) + b2 ! j)"
proof -
  let ?net = "Net_init W1 b1 W2 b2"
  have i1: "in_features (fc1 ?net) = 9" "out_features (fc1 ?net) = 9"
    "weight (fc1 ?net) = W1" "bias (fc1 ?net) = b1"
    and i2: "in_features (fc2 ?net) = 9" "out_features (fc2 ?net) = 4"
    "weight (fc2 ?net) = W2" "bias (fc2 ?net) = b2"
    by (simp_all add: Net_init_def)
  from Linear_call_ok [OF assms(2)] assms(1) obtain h where
    h: "Linear_call (fc1 ?net) x = Inr h" "length h = 9"
      "\<forall>i<9. h ! i = (\<Sum>k<9. x ! k * W1 ! i ! k) + b1 ! i"
    unfolding i1 by auto
  have lr: "length (relu h) = in_features (fc2 ?net)" using h(2) by (simp add: relu_def i2)
  from Linear_call_ok [OF assms(3) lr] obtain out where
    o: "Linear_call (fc2 ?net) (relu h) = Inr out" "length out = 4"
      "\<forall>j<4. out ! j = (\<Sum>k<9. relu h ! k * W2 ! j ! k) + b2 ! j"
    unfolding i2 by auto
  have "(\<Sum>k<9. relu h ! k * W2 ! j ! k) = (\<Sum>k<9. max 0 (h ! k) * W2 ! j ! k)" for j
    using h(2) by (intro sum.cong) (simp_all add: relu_def)
  with o(3) have o3: "\<forall>j<4. out ! j = (\<Sum>k<9. max 0 (h ! k) * W2 ! j ! k) + b2 ! j" by simp
  have f: "forward ?net x = Inr out"
    by (simp add: forward_def h(1) o(1))
  show ?thesis using h o(1,2) o3 f by blast
qed


lemma example_forward: "forward example_net example_x = Inr [1, 0, 3, - 2]"
  by (simp add: forward_def example_net_def Net_init_def Linear_call_def example_x_def
      example_W1_def example_b1_def example_W2_def example_b2_def dot_def relu_def)

lemma example_short: "forward example_net [1, 2, 3] = Inl RuntimeError"
  by (simp add: forward_def example_net_def Net_init_def Linear_call_def)

text \<open>The small network: the last output is negative, as no softmax output could be.\<close>

theorem Net_forward_witness:
  "\<exists>h. Linear_call (fc1 example_net) example_x = Inr h \<and> length h = 9 \<and>
       forward example_net example_x = Inr [1, 0, 3, - 2] \<and>
       Linear_call (fc2 example_net) (relu h) = Inr [1, 0, 3, - 2]"
proof -
  have x: "length example_x = 9" by (simp add: example_x_def)
  have l1: "Linear_ok (fc1 (Net_init example_W1 example_b1 example_W2 example_b2))"
    by (simp add: Linear_ok_def Net_init_def example_W1_def example_b1_def)
  have l2: "Linear_ok (fc2 (Net_init example_W1 example_b1 example_W2 example_b2))"
    by (simp add: Linear_ok_def Net_init_def example_W2_def example_b2_def)
  from Net_forward [OF x l1 l2] obtain h out where
    h: "Linear_call (fc1 example_net) example_x = Inr h" "length h = 9"
      "forward example_net example_x = Inr out"
      "Linear_call (fc2 example_net) (relu h) = Inr out"
    unfolding example_net_def [symmetric] by blast
  from h(3) have "out = [1, 0, 3, - 2]" by (simp add: example_forward)
  with h show ?thesis by blast
qed

subsection \<open>Evaluation passes\<close>

lemma count_equal_map:
  "count_equal (map p xs) (map g ys) = int (length (filter (\<lambda>(x, y). p x = g y) (zip xs ys)))"
proof -
  have "filter (\<lambda>(a, c). a = c) (zip (map p xs) (map g ys))
      = map (\<lambda>(x, y). (p x, g y)) (filter (\<lambda>(x, y). p x = g y) (zip xs ys))"
    by (simp add: zip_map_map filter_map comp_def case_prod_unfold)
  then show ?thesis by (simp add: count_equal_def)
qed

lemma count_equal_correct:
  "count_equal (map argmax (map (model_row tc w False) inputs))
     (map argmax (map (map real_of_int) labels0))
   = int (length (filter (correct tc w) (zip inputs labels0)))"
proof -
  have e: "(\<lambda>(x, y). argmax (model_row tc w False x) = argmax (map real_of_int y)) = correct tc w"
    by (auto simp: correct_def fun_eq_iff)
  have "count_equal (map (\<lambda>x. argmax (model_row tc w False x)) inputs)
          (map (\<lambda>y. argmax (map real_of_int y)) labels0)
        = int (length (filter (correct tc w) (zip inputs labels0)))"
    unfolding count_equal_map e ..
  then show ?thesis by (simp add: comp_def)
qed

lemma batch_body_eval:
  assumes "ph \<noteq> Train" and "training m = False"
  shows "batch_body tc ph (m, l, c) b =
           (m\<lparr>opt_state := zero_grad tc (opt_state m)\<rparr>,
            l + batch_loss tc (state_dict m) b * real (length (fst b)),
            iadd c (int (length (filter (correct tc (state_dict m)) (zip (fst b) (snd b))))))"
proof -
  obtain inputs labels0 where b: "b = (inputs, labels0)" by (cases b)
  have "count_equal (map argmax (map (model_row tc (state_dict m) False) inputs))
          (map argmax (map (map real_of_int) labels0))
        = int (length (filter (correct tc (state_dict m)) (zip inputs labels0)))"
    by (rule count_equal_correct)
  then show ?thesis
    using assms by (simp add: batch_body_def b Let_def batch_loss_def comp_def)
qed

lemma test_body_eval:
  assumes "training m = False"
  shows "test_body tc (m, l, c) b =
           (m, l + batch_loss tc (state_dict m) b * real (length (fst b)),
            iadd c (int (length (filter (correct tc (state_dict m)) (zip (fst b) (snd b))))))"
proof -
  obtain inputs labels0 where b: "b = (inputs, labels0)" by (cases b)
  have "count_equal (map argmax (map (model_row tc (state_dict m) False) inputs))
          (map argmax (map (map real_of_int) labels0))
        = int (length (filter (correct tc (state_dict m)) (zip inputs labels0)))"
    by (rule count_equal_correct)
  then show ?thesis
    using assms by (simp add: test_body_def b Let_def batch_loss_def comp_def)
qed

lemma foldl_batch_body_eval:
  assumes "ph \<noteq> Train" and "training m = False"
  shows "foldl (batch_body tc ph) (m, l, c) bs =
           (m\<lparr>opt_state := (zero_grad tc ^^ length bs) (opt_state m)\<rparr>,
            l + sum_list (map (\<lambda>b. batch_loss tc (state_dict m) b * real (length (fst b))) bs),
            foldl iadd c (map (\<lambda>b. int (length (filter (correct tc (state_dict m)) (zip (fst b) (snd b))))) bs))"
  using assms(2)
proof (induction bs arbitrary: m l c)
  case Nil
  then show ?case by simp
next
  case (Cons b bs)
  have t: "training (m\<lparr>opt_state := zero_grad tc (opt_state m)\<rparr>) = False"
    using Cons.prems by simp
  show ?case
    by (simp add: batch_body_eval [OF assms(1) Cons.prems] Cons.IH [OF t] funpow_Suc_right add.assoc
        del: funpow.simps)
qed

lemma foldl_test_body:
  assumes "training m = False"
  shows "foldl (test_body tc) (m, l, c) bs =
           (m, l + sum_list (map (\<lambda>b. batch_loss tc (state_dict m) b * real (length (fst b))) bs),
            foldl iadd c (map (\<lambda>b. int (length (filter (correct tc (state_dict m)) (zip (fst b) (snd b))))) bs))"
proof (induction bs arbitrary: l c)
  case Nil
  then show ?case by simp
next
  case (Cons b bs)
  show ?case
    by (simp add: test_body_eval [OF assms] Cons.IH add.assoc)
qed

lemma foldl_iadd_Tensor: "foldl iadd (Tensor a) ks = Tensor (a + sum_list ks)"
proof (induction ks arbitrary: a)
  case Nil
  then show ?case by simp
next
  case (Cons k ks)
  have "foldl iadd (Tensor a) (k # ks) = foldl iadd (Tensor (a + k)) ks" by simp
  also have "\<dots> = Tensor (a + k + sum_list ks)" by (rule Cons.IH)
  finally show ?case by (simp add: add.assoc)
qed

lemma foldl_iadd:
  "foldl iadd (PyInt 0) ks = (if ks = [] then PyInt 0 else Tensor (sum_list ks))"
  by (cases ks) (simp_all add: foldl_iadd_Tensor)

lemma sum_list_filter_lengths:
  "sum_list (map (\<lambda>b. int (length (filter P (f b)))) bs) = int (length (filter P (concat (map f bs))))"
  by (induction bs) simp_all

lemma sum_list_lengths:
  "sum_list (map (\<lambda>b. real (length (f b))) bs) = real (length (concat (map f bs)))"
  by (induction bs) simp_all

lemma zip_collate: "zip (fst (collate items)) (snd (collate items)) = items"
  unfolding collate_def fst_conv snd_conv by (rule zip_map_fst_snd)

lemma iter_loader_items:
  assumes "0 < batch_size dl"
  shows "concat (map (\<lambda>b. zip (fst b) (snd b)) (iter_loader permutation dl))
           = map (getitem (dataset dl)) (sampler permutation dl)"
proof -
  have "map (\<lambda>b. zip (fst b) (snd b)) (iter_loader permutation dl)
      = map (map (getitem (dataset dl))) (batch_sampler (batch_size dl) (sampler permutation dl))"
    by (simp add: iter_loader_def zip_collate comp_def)
  then show ?thesis
    using assms by (simp only: concat_map_map concat_batch_sampler)
qed

lemma getitem_range:
  assumes "length (targets ds) = length (samples ds)"
  shows "map (getitem ds) [0..<len ds] = zip (samples ds) (targets ds)"
  using assms by (intro nth_equalityI) (simp_all add: len_def getitem_def)

lemma items_mset:
  assumes "length (targets ds) = length (samples ds)" and "mset order = mset [0..<len ds]"
  shows "mset (map (getitem ds) order) = mset (zip (samples ds) (targets ds))"
proof -
  have "mset (map (getitem ds) order) = image_mset (getitem ds) (mset order)" by simp
  also have "\<dots> = mset (map (getitem ds) [0..<len ds])" by (simp add: assms(2))
  finally show ?thesis by (simp only: getitem_range [OF assms(1)])
qed

lemma length_filter_mset: "mset xs = mset ys \<Longrightarrow> length (filter P xs) = length (filter P ys)"
  by (metis mset_filter size_mset)

text \<open>What one pass counts, for a loader whose sampler order holds every index once.\<close>

lemma pass_counts:
  assumes "length (targets (fd ph)) = length (samples (fd ph))"
    and "mset (sampler permutation (dataloaders fd ph)) = mset [0..<len (fd ph)]"
  shows "sum_list (map (\<lambda>b. int (length (filter P (zip (fst b) (snd b)))))
            (iter_loader permutation (dataloaders fd ph)))
          = int (length (filter P (zip (samples (fd ph)) (targets (fd ph)))))"
    and "sum_list (map (\<lambda>b. real (length (fst b))) (iter_loader permutation (dataloaders fd ph)))
          = real (len (fd ph))"
proof -
  have b: "0 < batch_size (dataloaders fd ph)" by simp
  have it: "concat (map (\<lambda>b. zip (fst b) (snd b)) (iter_loader permutation (dataloaders fd ph)))
      = map (getitem (fd ph)) (sampler permutation (dataloaders fd ph))"
    using iter_loader_items [OF b, of permutation] by simp
  have m: "mset (map (getitem (fd ph)) (sampler permutation (dataloaders fd ph)))
      = mset (zip (samples (fd ph)) (targets (fd ph)))"
    by (rule items_mset [where ds = "fd ph", OF assms])
  show "sum_list (map (\<lambda>b. int (length (filter P (zip (fst b) (snd b)))))
            (iter_loader permutation (dataloaders fd ph)))
          = int (length (filter P (zip (samples (fd ph)) (targets (fd ph)))))"
    unfolding sum_list_filter_lengths it using length_filter_mset [OF m, of P] by simp
  have "concat (map fst (iter_loader permutation (dataloaders fd ph)))
      = map ((!) (samples (fd ph))) (sampler permutation (dataloaders fd ph))"
    using iter_loader_concat(1) [OF b, of permutation] by simp
  moreover have "length (sampler permutation (dataloaders fd ph)) = len (fd ph)"
    using assms(2) by (rule perm_length)
  ultimately show "sum_list (map (\<lambda>b. real (length (fst b))) (iter_loader permutation (dataloaders fd ph)))
          = real (len (fd ph))"
    unfolding sum_list_lengths by simp
qed

lemma iter_loader_nonempty:
  assumes "mset (sampler permutation (dataloaders fd ph)) = mset [0..<len (fd ph)]"
    and "0 < len (fd ph)"
  shows "iter_loader permutation (dataloaders fd ph) \<noteq> []"
proof -
  have "length (sampler permutation (dataloaders fd ph)) = len (fd ph)"
    using assms(1) by (rule perm_length)
  then have "sampler permutation (dataloaders fd ph) \<noteq> []" using assms(2) by auto
  then show ?thesis
    by (simp add: iter_loader_def batch_sampler_step)
qed

lemma sampler_eval_order:
  "ph \<noteq> Train \<Longrightarrow> mset (sampler permutation (dataloaders fd ph)) = mset [0..<len (fd ph)]"
  by (simp add: sampler_dataloaders)


lemma epoch_stats_Tensor:
  "0 < len (fd ph) \<Longrightarrow>
   epoch_stats fd ph l (Tensor k) = Inr (l / real (len (fd ph)), real_of_int k / real (len (fd ph)))"
  by (simp add: epoch_stats_def dataset_sizes_def)

lemma eval_stats:
  assumes "0 < len (fd ph)" and "length (targets (fd ph)) = length (samples (fd ph))"
    and "mset (sampler permutation (dataloaders fd ph)) = mset [0..<len (fd ph)]"
  shows "epoch_stats fd ph
           (0 + sum_list (map (\<lambda>b. batch_loss tc w b * real (length (fst b)))
                   (iter_loader permutation (dataloaders fd ph))))
           (foldl iadd (PyInt 0)
              (map (\<lambda>b. int (length (filter (correct tc w) (zip (fst b) (snd b)))))
                   (iter_loader permutation (dataloaders fd ph))))
         = Inr (weighted_mean_loss tc w (iter_loader permutation (dataloaders fd ph)),
                accuracy tc w (fd ph))"
proof -
  let ?B = "iter_loader permutation (dataloaders fd ph)"
  have ne: "?B \<noteq> []" by (rule iter_loader_nonempty [where fd = fd and ph = ph, OF assms(3) assms(1)])
  have c: "foldl iadd (PyInt 0)
             (map (\<lambda>b. int (length (filter (correct tc w) (zip (fst b) (snd b))))) ?B)
           = Tensor (int (length (filter (correct tc w) (zip (samples (fd ph)) (targets (fd ph))))))"
    using ne by (simp add: foldl_iadd pass_counts(1) [where fd = fd and ph = ph, OF assms(2,3)])
  show ?thesis
    unfolding c epoch_stats_Tensor [where fd = fd and ph = ph, OF assms(1)]
    by (simp add: weighted_mean_loss_def accuracy_def pass_counts(2) [where fd = fd and ph = ph, OF assms(2,3)])
qed

lemma phase_pass_Val:
  "phase_pass fd p tc Val m =
     (m\<lparr>training := False,
        opt_state := (zero_grad tc ^^ length (iter_loader p (dataloaders fd Val))) (opt_state m)\<rparr>,
      0 + sum_list (map (\<lambda>b. batch_loss tc (state_dict m) b * real (length (fst b)))
                     (iter_loader p (dataloaders fd Val))),
      foldl iadd (PyInt 0)
        (map (\<lambda>b. int (length (filter (correct tc (state_dict m)) (zip (fst b) (snd b)))))
             (iter_loader p (dataloaders fd Val))))"
proof -
  have t: "training (m\<lparr>training := False\<rparr>) = False" by simp
  show ?thesis
    unfolding phase_pass_def
    using foldl_batch_body_eval [where ph = Val and tc = tc, OF _ t, of 0 "PyInt 0"
        "iter_loader p (dataloaders fd Val)"]
    by simp
qed

lemma phase_body_Val:
  assumes "0 < len (fd Val)" and "length (targets (fd Val)) = length (samples (fd Val))"
  shows "phase_body fd p tc st Val =
     Inr (let a = accuracy tc (state_dict (model st)) (fd Val);
              st1 = st\<lparr>model := (model st)\<lparr>training := False,
                           opt_state := (zero_grad tc ^^ length (iter_loader p (dataloaders fd Val)))
                                          (opt_state (model st))\<rparr>,
                        out := out st @ [Phase_stats Val
                           (weighted_mean_loss tc (state_dict (model st)) (iter_loader p (dataloaders fd Val)))
                           a]\<rparr>
          in if a > best_acc st
             then st1\<lparr>best_acc := a, best_model_wts := state_dict (model st)\<rparr>
             else st1)"
proof -
  have o: "mset (sampler p (dataloaders fd Val)) = mset [0..<len (fd Val)]"
    by (rule sampler_eval_order) simp
  show ?thesis
    unfolding phase_body_def phase_pass_Val prod.case
      eval_stats [where fd = fd and ph = Val, OF assms o]
    by (simp add: Let_def)
qed

lemma print_test_accuracy_eq:
  assumes "0 < len (fd ph)" and "length (targets (fd ph)) = length (samples (fd ph))"
    and "ph = Train \<longrightarrow> mset permutation = mset [0..<len (fd Train)]"
  shows "print_test_accuracy fd permutation tc m ph =
           Inr (m\<lparr>training := False\<rparr>,
                [On_test (weighted_mean_loss tc (state_dict m) (iter_loader permutation (dataloaders fd ph)))
                         (accuracy tc (state_dict m) (fd ph))])"
proof -
  have o: "mset (sampler permutation (dataloaders fd ph)) = mset [0..<len (fd ph)]"
    using assms(3) by (simp add: sampler_dataloaders)
  have t: "training (m\<lparr>training := False\<rparr>) = False" by simp
  show ?thesis
    unfolding print_test_accuracy_def foldl_test_body [OF t] prod.case
    using eval_stats [where fd = fd and ph = ph and tc = tc and w = "state_dict m", OF assms(1,2) o]
    by simp
qed


lemma correct_frame [simp]:
  "correct (tc\<lparr>backward := bw, optimizer_step := os\<rparr>) = correct tc"
  by (simp add: correct_def fun_eq_iff)

lemma accuracy_frame [simp]:
  "accuracy (tc\<lparr>backward := bw, optimizer_step := os\<rparr>) = accuracy tc"
  by (simp add: accuracy_def fun_eq_iff)

lemma weighted_mean_loss_frame [simp]:
  "weighted_mean_loss (tc\<lparr>backward := bw, optimizer_step := os\<rparr>) = weighted_mean_loss tc"
  by (simp add: weighted_mean_loss_def batch_loss_def fun_eq_iff)

text \<open>
  C8.  On a non-empty validation set, the validation phase of \<open>train_model\<close> returns,
  leaves the model's parameters as they were, touches the optimizer's state only
  through \<open>zero_grad\<close> (once per batch), and prints the mean of the batch losses, each
  weighted with its number of samples, and the accuracy of the current weights on the
  validation set.  \<open>print_test_accuracy\<close>, on a non-empty split, returns the model
  object unchanged but for the evaluation mode, and prints the same two numbers for
  that split.  Neither depends on what \<open>backward\<close> and \<open>optimizer.step\<close> do: with any
  other two operations in their place the result is the same, so neither is executed.
\<close>

theorem evaluation_inference_only:
  assumes "0 < len (fd Val)" and "length (targets (fd Val)) = length (samples (fd Val))"
    and "0 < len (fd ph)" and "length (targets (fd ph)) = length (samples (fd ph))"
    and "ph = Train \<longrightarrow> mset permutation = mset [0..<len (fd Train)]"
  shows "(\<exists>st'. phase_body fd p tc st Val = Inr st' \<and>
            phase_body fd p (tc\<lparr>backward := bw, optimizer_step := os\<rparr>) st Val = Inr st' \<and>
            state_dict (model st') = state_dict (model st) \<and>
            opt_state (model st') =
              (zero_grad tc ^^ length (iter_loader p (dataloaders fd Val))) (opt_state (model st)) \<and>
            out st' = out st @
              [Phase_stats Val
                 (weighted_mean_loss tc (state_dict (model st)) (iter_loader p (dataloaders fd Val)))
                 (accuracy tc (state_dict (model st)) (fd Val))]) \<and>
         print_test_accuracy fd permutation tc m ph =
           Inr (m\<lparr>training := False\<rparr>,
                [On_test (weighted_mean_loss tc (state_dict m) (iter_loader permutation (dataloaders fd ph)))
                         (accuracy tc (state_dict m) (fd ph))]) \<and>
         print_test_accuracy fd permutation (tc\<lparr>backward := bw, optimizer_step := os\<rparr>) m ph =
           print_test_accuracy fd permutation tc m ph"
proof -
  note v = phase_body_Val [where fd = fd, OF assms(1,2)]
  note t = print_test_accuracy_eq [where fd = fd and ph = ph, OF assms(3,4,5)]
  have "\<exists>st'. phase_body fd p tc st Val = Inr st' \<and>
            phase_body fd p (tc\<lparr>backward := bw, optimizer_step := os\<rparr>) st Val = Inr st' \<and>
            state_dict (model st') = state_dict (model st) \<and>
            opt_state (model st') =
              (zero_grad tc ^^ length (iter_loader p (dataloaders fd Val))) (opt_state (model st)) \<and>
            out st' = out st @
              [Phase_stats Val
                 (weighted_mean_loss tc (state_dict (model st)) (iter_loader p (dataloaders fd Val)))
                 (accuracy tc (state_dict (model st)) (fd Val))]"
    unfolding v by (simp add: Let_def)
  moreover have "print_test_accuracy fd permutation (tc\<lparr>backward := bw, optimizer_step := os\<rparr>) m ph
      = print_test_accuracy fd permutation tc m ph"
    unfolding t by simp
  ultimately show ?thesis using t by blast
qed

lemma toy_model_row: "model_row toy w mode x = map (\<lambda>j. if j = w mod 4 then 1 else 0) [0, 1, 2, 3]"
  by (simp add: toy_def)

lemma example_val_accuracy:
  "accuracy toy 5 (feature_datasets example_splits Val) = 1 / 2"
  "weighted_mean_loss toy 5 (iter_loader p (dataloaders (feature_datasets example_splits) Val)) = 1 / 2"
proof -
  show "accuracy toy 5 (feature_datasets example_splits Val) = 1 / 2"
    by (simp add: accuracy_def correct_def toy_model_row feature_datasets_def example_splits_def len_def)
  show "weighted_mean_loss toy 5 (iter_loader p (dataloaders (feature_datasets example_splits) Val)) = 1 / 2"
    unfolding example_val_pass
    by (simp add: weighted_mean_loss_def batch_loss_def toy_def)
qed

lemma example_test_accuracy:
  "accuracy toy 5 (feature_datasets example_splits Test) = 0"
  "weighted_mean_loss toy 5 (iter_loader p (dataloaders (feature_datasets example_splits) Test)) = 1"
proof -
  show "accuracy toy 5 (feature_datasets example_splits Test) = 0"
    by (simp add: accuracy_def correct_def toy_model_row feature_datasets_def example_splits_def len_def)
  show "weighted_mean_loss toy 5 (iter_loader p (dataloaders (feature_datasets example_splits) Test)) = 1"
    unfolding example_test_pass
    by (simp add: weighted_mean_loss_def batch_loss_def toy_def)
qed

text \<open>On the small datasets, with the toy model at \<open>w = 5\<close> (which predicts class 1).\<close>

theorem evaluation_inference_only_witness:
  "(\<exists>st'. phase_body (feature_datasets example_splits) [] toy
             \<lparr>model = toy_world 5, best_acc = 0, best_model_wts = 5, out = []\<rparr> Val = Inr st' \<and>
          state_dict (model st') = 5 \<and> out st' = [Phase_stats Val (1 / 2) (1 / 2)]) \<and>
   print_test_accuracy (feature_datasets example_splits) [] toy (toy_world 5) Test =
     Inr ((toy_world 5)\<lparr>training := False\<rparr>, [On_test 1 0])"
proof -
  have v: "0 < len (feature_datasets example_splits Val)"
    "length (targets (feature_datasets example_splits Val)) = length (samples (feature_datasets example_splits Val))"
    by (simp_all add: len_def feature_datasets_def example_splits_def)
  have t: "0 < len (feature_datasets example_splits Test)"
    "length (targets (feature_datasets example_splits Test)) = length (samples (feature_datasets example_splits Test))"
    by (simp_all add: len_def feature_datasets_def example_splits_def)
  have p: "Test = Train \<longrightarrow> mset [] = mset [0..<len (feature_datasets example_splits Train)]"
    by simp
  have w: "state_dict (toy_world 5) = 5" by (simp add: toy_world_def)
  show ?thesis
    using evaluation_inference_only [where fd = "feature_datasets example_splits" and ph = Test
        and tc = toy and p = "[]" and permutation = "[]" and m = "toy_world 5"
        and st = "\<lparr>model = toy_world 5, best_acc = 0, best_model_wts = 5, out = []\<rparr>"
        and bw = "backward toy" and os = "optimizer_step toy",
        OF v t p]
    unfolding loop_state.simps w example_val_accuracy example_test_accuracy
    by auto
qed

subsection \<open>The epochs of \<open>train_model\<close>\<close>

lemma fold_err_append:
  "fold_err f s (xs @ ys) = (case fold_err f s xs of Inl e \<Rightarrow> Inl e | Inr s' \<Rightarrow> fold_err f s' ys)"
  by (induction xs arbitrary: s) (simp_all split: sum.splits)

lemma batch_body_counter: "\<exists>m' l' k. batch_body tc ph s b = (m', l', Tensor k)"
proof -
  obtain m l c where s: "s = (m, l, c)" by (cases s)
  obtain inputs labels0 where b: "b = (inputs, labels0)" by (cases b)
  have "\<exists>k. iadd c j = Tensor k" for j by (cases c) simp_all
  then show ?thesis
    unfolding s b batch_body_def by (simp add: Let_def split: prod.splits)
qed

lemma foldl_batch_body_counter:
  assumes "bs \<noteq> []"
  shows "\<exists>m' l' k. foldl (batch_body tc ph) s bs = (m', l', Tensor k)"
proof -
  from assms obtain bs' b where "bs = bs' @ [b]" by (metis rev_exhaust)
  then show ?thesis using batch_body_counter by simp
qed

lemma phase_body_Train:
  assumes "0 < len (fd Train)" and "mset p = mset [0..<len (fd Train)]"
  shows "\<exists>l a. phase_body fd p tc st Train =
           Inr (st\<lparr>model := fst (phase_pass fd p tc Train (model st)),
                    out := out st @ [Phase_stats Train l a]\<rparr>)"
proof -
  have o: "mset (sampler p (dataloaders fd Train)) = mset [0..<len (fd Train)]"
    using assms(2) by (simp add: sampler_dataloaders)
  have ne: "iter_loader p (dataloaders fd Train) \<noteq> []"
    by (rule iter_loader_nonempty [where fd = fd and ph = Train, OF o assms(1)])
  obtain m' l' k where r: "phase_pass fd p tc Train (model st) = (m', l', Tensor k)"
    unfolding phase_pass_def Let_def using foldl_batch_body_counter [OF ne] by blast
  show ?thesis
    unfolding phase_body_def r prod.case
      epoch_stats_Tensor [where fd = fd and ph = Train, OF assms(1)]
    by (auto simp: Let_def)
qed

lemma state_dict_phase_pass_Val:
  "state_dict (fst (phase_pass fd p tc Val m)) = state_dict m"
  by (simp add: phase_pass_Val)

lemma epoch_body_step:
  assumes "0 < len (fd Train)" and "mset (rng k) = mset [0..<len (fd Train)]"
    and "0 < len (fd Val)" and "length (targets (fd Val)) = length (samples (fd Val))"
    and "model st = epoch_model fd rng tc m k"
  shows "\<exists>st'. epoch_body fd rng tc N st k = Inr st' \<and>
           model st' = epoch_model fd rng tc m (Suc k) \<and>
           best_acc st' = (if val_acc fd rng tc m k > best_acc st then val_acc fd rng tc m k
                           else best_acc st) \<and>
           best_model_wts st' = (if val_acc fd rng tc m k > best_acc st then val_wts fd rng tc m k
                                 else best_model_wts st)"
proof -
  let ?st0 = "st\<lparr>out := out st @ [Epoch_header k (N - 1)]\<rparr>"
  let ?mt = "fst (phase_pass fd (rng k) tc Train (epoch_model fd rng tc m k))"
  from phase_body_Train [where fd = fd and p = "rng k" and tc = tc and st = ?st0, OF assms(1,2)]
  obtain l a where
    tr: "phase_body fd (rng k) tc ?st0 Train =
           Inr (?st0\<lparr>model := fst (phase_pass fd (rng k) tc Train (model ?st0)),
                     out := out ?st0 @ [Phase_stats Train l a]\<rparr>)"
    by blast
  let ?st1 = "?st0\<lparr>model := fst (phase_pass fd (rng k) tc Train (model ?st0)),
                     out := out ?st0 @ [Phase_stats Train l a]\<rparr>"
  have m1: "model ?st1 = ?mt" using assms(5) by simp
  have w: "val_wts fd rng tc m k = state_dict ?mt"
    by (simp add: val_wts_def state_dict_phase_pass_Val)
  have em: "epoch_model fd rng tc m (Suc k) =
      ?mt\<lparr>training := False,
           opt_state := (zero_grad tc ^^ length (iter_loader (rng k) (dataloaders fd Val))) (opt_state ?mt)\<rparr>"
    by (simp add: phase_pass_Val)
  note va = phase_body_Val [where fd = fd, OF assms(3,4)]
  show ?thesis
    unfolding epoch_body_def Let_def
    by (simp add: tr va Let_def val_acc_def w em assms(5) del: epoch_model.simps)
qed

text \<open>
  The invariant of the loop over the epochs: after \<open>n\<close> epochs the model object is
  \<open>epoch_model \<dots> n\<close>, \<open>best_acc\<close> bounds the validation accuracies seen so far, and
  either it is still 0 with the initial weights saved, or it is the accuracy of an
  epoch that strictly beat all earlier ones and whose weights are the saved ones.
\<close>

lemma epochs_invariant:
  assumes "0 < len (fd Train)" and "0 < len (fd Val)"
    and "length (targets (fd Val)) = length (samples (fd Val))"
    and "\<forall>e<n. mset (rng e) = mset [0..<len (fd Train)]"
  shows "\<exists>st. fold_err (epoch_body fd rng tc N)
                \<lparr>model = m, best_acc = 0, best_model_wts = state_dict m, out = lines0\<rparr> [0..<n] = Inr st \<and>
           model st = epoch_model fd rng tc m n \<and>
           0 \<le> best_acc st \<and>
           (\<forall>e<n. val_acc fd rng tc m e \<le> best_acc st) \<and>
           ((best_acc st = 0 \<and> best_model_wts st = state_dict m) \<or>
            (\<exists>e<n. val_acc fd rng tc m e = best_acc st \<and> 0 < best_acc st \<and>
                   (\<forall>e'<e. val_acc fd rng tc m e' < best_acc st) \<and>
                   best_model_wts st = val_wts fd rng tc m e))"
  using assms(4)
proof (induction n)
  case 0
  then show ?case by simp
next
  case (Suc n)
  then obtain st where
    f: "fold_err (epoch_body fd rng tc N)
          \<lparr>model = m, best_acc = 0, best_model_wts = state_dict m, out = lines0\<rparr> [0..<n] = Inr st"
    and mo: "model st = epoch_model fd rng tc m n"
    and nn: "0 \<le> best_acc st"
    and ub: "\<forall>e<n. val_acc fd rng tc m e \<le> best_acc st"
    and bw: "(best_acc st = 0 \<and> best_model_wts st = state_dict m) \<or>
            (\<exists>e<n. val_acc fd rng tc m e = best_acc st \<and> 0 < best_acc st \<and>
                   (\<forall>e'<e. val_acc fd rng tc m e' < best_acc st) \<and>
                   best_model_wts st = val_wts fd rng tc m e)"
    by auto
  have p: "mset (rng n) = mset [0..<len (fd Train)]" using Suc.prems by simp
  from epoch_body_step [where fd = fd and rng = rng and tc = tc and m = m and N = N,
      OF assms(1) p assms(2,3) mo]
  obtain st' where
    e: "epoch_body fd rng tc N st n = Inr st'"
    and mo': "model st' = epoch_model fd rng tc m (Suc n)"
    and ba: "best_acc st' = (if val_acc fd rng tc m n > best_acc st then val_acc fd rng tc m n
                           else best_acc st)"
    and bm: "best_model_wts st' = (if val_acc fd rng tc m n > best_acc st then val_wts fd rng tc m n
                                 else best_model_wts st)"
    by blast
  have f': "fold_err (epoch_body fd rng tc N)
          \<lparr>model = m, best_acc = 0, best_model_wts = state_dict m, out = lines0\<rparr> [0..<Suc n] = Inr st'"
    by (simp add: fold_err_append f e)
  show ?case
  proof (cases "val_acc fd rng tc m n > best_acc st")
    case True
    have "0 \<le> best_acc st'" using True nn ba by simp
    moreover have "\<forall>e<Suc n. val_acc fd rng tc m e \<le> best_acc st'"
      using True ub ba by (auto simp: less_Suc_eq)
    moreover have "\<exists>e<Suc n. val_acc fd rng tc m e = best_acc st' \<and> 0 < best_acc st' \<and>
                   (\<forall>e'<e. val_acc fd rng tc m e' < best_acc st') \<and>
                   best_model_wts st' = val_wts fd rng tc m e"
      using True ub ba bm nn by (intro exI [where x = n]) auto
    ultimately show ?thesis using f' mo' by blast
  next
    case False
    then have ba': "best_acc st' = best_acc st" and bm': "best_model_wts st' = best_model_wts st"
      using ba bm by simp_all
    have "\<forall>e<Suc n. val_acc fd rng tc m e \<le> best_acc st'"
      using False ub ba' by (auto simp: less_Suc_eq)
    moreover have "(best_acc st' = 0 \<and> best_model_wts st' = state_dict m) \<or>
            (\<exists>e<Suc n. val_acc fd rng tc m e = best_acc st' \<and> 0 < best_acc st' \<and>
                   (\<forall>e'<e. val_acc fd rng tc m e' < best_acc st') \<and>
                   best_model_wts st' = val_wts fd rng tc m e)"
      using bw unfolding ba' bm' by (auto simp: less_Suc_eq)
    ultimately show ?thesis using f' mo' nn ba' by auto
  qed
qed

lemma train_model_result:
  assumes "0 < len (fd Train)" and "0 < len (fd Val)"
    and "length (targets (fd Val)) = length (samples (fd Val))"
    and "\<forall>e<nat N. mset (rng e) = mset [0..<len (fd Train)]"
  shows "\<exists>mdl lines best.
           train_model fd rng tc m N = Inr (mdl, lines @ [Best_val_acc best]) \<and>
           0 \<le> best \<and>
           (\<forall>e<nat N. val_acc fd rng tc m e \<le> best) \<and>
           ((best = 0 \<and> state_dict mdl = state_dict m) \<or>
            (\<exists>e<nat N. val_acc fd rng tc m e = best \<and> 0 < best \<and>
                   (\<forall>e'<e. val_acc fd rng tc m e' < best) \<and>
                   state_dict mdl = val_wts fd rng tc m e))"
proof -
  from epochs_invariant [where fd = fd and rng = rng and tc = tc and m = m and N = N
      and n = "nat N" and ?lines0.0 = "[Print_model, Blank]", OF assms]
  obtain st where
    f: "fold_err (epoch_body fd rng tc N)
          \<lparr>model = m, best_acc = 0, best_model_wts = state_dict m, out = [Print_model, Blank]\<rparr>
          [0..<nat N] = Inr st"
    and nn: "0 \<le> best_acc st"
    and ub: "\<forall>e<nat N. val_acc fd rng tc m e \<le> best_acc st"
    and bw: "(best_acc st = 0 \<and> best_model_wts st = state_dict m) \<or>
            (\<exists>e<nat N. val_acc fd rng tc m e = best_acc st \<and> 0 < best_acc st \<and>
                   (\<forall>e'<e. val_acc fd rng tc m e' < best_acc st) \<and>
                   best_model_wts st = val_wts fd rng tc m e)"
    by blast
  have "train_model fd rng tc m N =
      Inr ((model st)\<lparr>state_dict := best_model_wts st\<rparr>,
           (out st @ [Blank, Training_complete]) @ [Best_val_acc (best_acc st)])"
    by (simp add: train_model_def Let_def f)
  then show ?thesis using nn ub bw
    by (intro exI [where x = "(model st)\<lparr>state_dict := best_model_wts st\<rparr>"]
        exI [where x = "out st @ [Blank, Training_complete]"] exI [where x = "best_acc st"]) simp
qed

lemma toy_fields:
  "model_row toy = (\<lambda>w mode x. map (\<lambda>j. if j = w mod 4 then 1 else 0) [0, 1, 2, 3])"
  "criterion toy = (\<lambda>outputs classnums.
         real (length (filter (\<lambda>(out, c). argmax out \<noteq> c) (zip outputs classnums)))
           / real (length outputs))"
  "zero_grad toy = (\<lambda>(g, e). (0, e))"
  "backward toy = (\<lambda>w mode inputs classnums (g, e). (g + int (length inputs), e))"
  "optimizer_step toy = (\<lambda>w (g, e). (w + 1, (g, e)))"
  "scheduler_step toy = (\<lambda>(g, e). (g, e + 1))"
  by (simp_all add: toy_def)

lemma toy_order_pass:
  "iter_loader (toy_order k) (dataloaders (feature_datasets example_splits) Train) =
     [([[3], [1], [2]], [[0, 0, 1, 0], [1, 0, 0, 0], [0, 1, 0, 0]])]"
  unfolding toy_order_def by (rule example_train_pass)

lemma toy_sizes:
  "dataset_sizes (feature_datasets example_splits) Train = 3"
  "dataset_sizes (feature_datasets example_splits) Val = 2"
  by (simp_all add: dataset_sizes_def len_def feature_datasets_def example_splits_def)

lemma toy_run_6:
  "train_model (feature_datasets example_splits) toy_order toy (toy_world 6) 1 =
     Inr (\<lparr>state_dict = 6, training = False, opt_state = (0, 1)\<rparr>,
          [Print_model, Blank, Epoch_header 0 0, Phase_stats Train (2 / 3) (1 / 3),
           Phase_stats Val 1 0, Blank, Blank, Training_complete, Best_val_acc 0])"
  by (simp add: train_model_def epoch_body_def phase_body_def phase_pass_def toy_order_pass
      example_val_pass batch_body_def toy_fields toy_world_def epoch_stats_def toy_sizes
      count_equal_def Let_def)


lemma accuracy_nonneg: "0 \<le> accuracy tc w ds"
  by (simp add: accuracy_def)

lemma val_acc_nonneg: "0 \<le> val_acc fd rng tc m e"
  by (simp add: val_acc_def accuracy_nonneg)

text \<open>
  C10.  With non-empty training and validation sets, \<open>train_model\<close> returns, and the
  weights of the returned model are: the initial weights, when no epoch has a
  validation accuracy greater than 0; and otherwise the weights at the end of the
  validation phase of the earliest epoch that attains the maximum of the validation
  accuracies (an epoch with positive accuracy that no epoch exceeds and no earlier
  epoch equals).
\<close>

theorem train_model_earliest_best:
  assumes "0 < len (fd Train)" and "0 < len (fd Val)"
    and "length (targets (fd Val)) = length (samples (fd Val))"
    and "\<forall>e<nat N. mset (rng e) = mset [0..<len (fd Train)]"
  shows "\<exists>mdl lines.
           train_model fd rng tc m N = Inr (mdl, lines) \<and>
           ((\<forall>e<nat N. val_acc fd rng tc m e \<le> 0) \<longrightarrow> state_dict mdl = state_dict m) \<and>
           (\<forall>e<nat N.
              0 < val_acc fd rng tc m e \<and>
              (\<forall>e'<nat N. val_acc fd rng tc m e' \<le> val_acc fd rng tc m e) \<and>
              (\<forall>e'<e. val_acc fd rng tc m e' < val_acc fd rng tc m e)
              \<longrightarrow> state_dict mdl = val_wts fd rng tc m e)"
proof -
  from train_model_result [where fd = fd and rng = rng and tc = tc and m = m and N = N, OF assms]
  obtain mdl lines best where
    r: "train_model fd rng tc m N = Inr (mdl, lines @ [Best_val_acc best])"
    and ub: "\<forall>e<nat N. val_acc fd rng tc m e \<le> best"
    and bw: "(best = 0 \<and> state_dict mdl = state_dict m) \<or>
            (\<exists>e<nat N. val_acc fd rng tc m e = best \<and> 0 < best \<and>
                   (\<forall>e'<e. val_acc fd rng tc m e' < best) \<and>
                   state_dict mdl = val_wts fd rng tc m e)"
    by blast
  have none: "state_dict mdl = state_dict m" if "\<forall>e<nat N. val_acc fd rng tc m e \<le> 0"
    using bw that by fastforce
  have first: "state_dict mdl = val_wts fd rng tc m e"
    if e: "e < nat N" and pos: "0 < val_acc fd rng tc m e"
      and mx: "\<forall>e'<nat N. val_acc fd rng tc m e' \<le> val_acc fd rng tc m e"
      and ea: "\<forall>e'<e. val_acc fd rng tc m e' < val_acc fd rng tc m e" for e
  proof -
    have "0 < best" using ub e pos by fastforce
    with bw obtain e0 where e0: "e0 < nat N" "val_acc fd rng tc m e0 = best"
      "\<forall>e'<e0. val_acc fd rng tc m e' < best" "state_dict mdl = val_wts fd rng tc m e0"
      by auto
    have eq: "val_acc fd rng tc m e = best"
      using ub e mx e0(1,2) by (metis order_antisym)
    have "\<not> e0 < e" using ea e0(2) eq by auto
    moreover have "\<not> e < e0" using e0(3) eq by auto
    ultimately have "e0 = e" by arith
    then show ?thesis using e0(4) by simp
  qed
  show ?thesis using r none first by blast
qed

text \<open>
  C1, amended.  With non-empty training and validation sets and at least one epoch,
  \<open>train_model\<close> returns, the last line printed is the maximum of the validation
  accuracies of the epochs, and, provided some epoch has a validation accuracy greater
  than 0, the weights of the returned model are those at the end of the validation
  phase of an epoch whose validation accuracy is that maximum.
\<close>

theorem train_model_returns_best:
  assumes "0 < len (fd Train)" and "0 < len (fd Val)"
    and "length (targets (fd Val)) = length (samples (fd Val))"
    and "\<forall>e<nat N. mset (rng e) = mset [0..<len (fd Train)]"
    and "0 < N"
  shows "\<exists>mdl lines.
           train_model fd rng tc m N = Inr (mdl, lines) \<and>
           last lines = Best_val_acc (Max (val_acc fd rng tc m ` {..<nat N})) \<and>
           ((\<exists>e<nat N. 0 < val_acc fd rng tc m e) \<longrightarrow>
            (\<exists>e<nat N. val_acc fd rng tc m e = Max (val_acc fd rng tc m ` {..<nat N}) \<and>
                       state_dict mdl = val_wts fd rng tc m e))"
proof -
  from train_model_result [where fd = fd and rng = rng and tc = tc and m = m and N = N, OF assms(1-4)]
  obtain mdl lines best where
    r: "train_model fd rng tc m N = Inr (mdl, lines @ [Best_val_acc best])"
    and ub: "\<forall>e<nat N. val_acc fd rng tc m e \<le> best"
    and bw: "(best = 0 \<and> state_dict mdl = state_dict m) \<or>
            (\<exists>e<nat N. val_acc fd rng tc m e = best \<and> 0 < best \<and>
                   (\<forall>e'<e. val_acc fd rng tc m e' < best) \<and>
                   state_dict mdl = val_wts fd rng tc m e)"
    by blast
  have n0: "0 < nat N" using assms(5) by simp
  have att: "\<exists>e<nat N. val_acc fd rng tc m e = best"
  proof (cases "best = 0")
    case True
    have "val_acc fd rng tc m 0 = 0"
      using ub n0 val_acc_nonneg [of fd rng tc m 0] True by fastforce
    then have "0 < nat N \<and> val_acc fd rng tc m 0 = best" using n0 True by simp
    then show ?thesis by (rule exI [where x = 0])
  next
    case False
    then show ?thesis using bw by auto
  qed
  have mx: "Max (val_acc fd rng tc m ` {..<nat N}) = best"
  proof (rule Max_eqI)
    show "finite (val_acc fd rng tc m ` {..<nat N})" by simp
    show "y \<le> best" if "y \<in> val_acc fd rng tc m ` {..<nat N}" for y
      using that ub by auto
    show "best \<in> val_acc fd rng tc m ` {..<nat N}" using att by auto
  qed
  have w: "\<exists>e<nat N. val_acc fd rng tc m e = best \<and> state_dict mdl = val_wts fd rng tc m e"
    if "\<exists>e<nat N. 0 < val_acc fd rng tc m e"
  proof -
    from that ub have "0 < best" by fastforce
    with bw show ?thesis by auto
  qed
  show ?thesis
    unfolding mx using r w
    by (intro exI [where x = mdl] exI [where x = "lines @ [Best_val_acc best]"]) simp
qed


lemma toy_train_fst:
  "fst (phase_pass (feature_datasets example_splits) (toy_order k) toy Train mw) =
     \<lparr>state_dict = state_dict mw + 1, training = True, opt_state = (3, snd (opt_state mw) + 1)\<rparr>"
  by (cases mw)
     (simp add: phase_pass_def toy_order_pass batch_body_def toy_fields Let_def case_prod_unfold)

lemma toy_epoch_weights:
  "state_dict (epoch_model (feature_datasets example_splits) toy_order toy mw k) = state_dict mw + k"
  by (induction k) (simp_all add: state_dict_phase_pass_Val toy_train_fst)

lemma toy_val_wts:
  "val_wts (feature_datasets example_splits) toy_order toy (toy_world w) k = w + Suc k"
  unfolding val_wts_def toy_epoch_weights by (simp add: toy_world_def)

lemma toy_accuracy:
  "accuracy toy w (feature_datasets example_splits Val) =
     (if w mod 4 = 1 \<or> w mod 4 = 2 then 1 / 2 else 0)"
  by (simp add: accuracy_def correct_def toy_fields feature_datasets_def example_splits_def len_def)

lemma toy_val_acc:
  "val_acc (feature_datasets example_splits) toy_order toy (toy_world w) k =
     (if (w + Suc k) mod 4 = 1 \<or> (w + Suc k) mod 4 = 2 then 1 / 2 else 0)"
  unfolding val_acc_def toy_val_wts by (rule toy_accuracy)

lemma toy_hyps:
  "0 < len (feature_datasets example_splits Train)"
  "0 < len (feature_datasets example_splits Val)"
  "length (targets (feature_datasets example_splits Val))
     = length (samples (feature_datasets example_splits Val))"
  "\<forall>e<n. mset (toy_order e) = mset [0..<len (feature_datasets example_splits Train)]"
proof -
  have l: "len (feature_datasets example_splits Train) = 3"
    by (simp add: len_def feature_datasets_def example_splits_def)
  have "mset [2, 0, 1] = mset [0..<3]" by code_simp
  then show "\<forall>e<n. mset (toy_order e) = mset [0..<len (feature_datasets example_splits Train)]"
    unfolding l toy_order_def by simp
qed (simp_all add: len_def feature_datasets_def example_splits_def)

lemma toy_epoch_0:
  "epoch_body (feature_datasets example_splits) toy_order toy 3
     \<lparr>model = toy_world 4, best_acc = 0, best_model_wts = 4, out = [Print_model, Blank]\<rparr> 0 =
   Inr \<lparr>model = \<lparr>state_dict = 5, training = False, opt_state = (0, 1)\<rparr>,
        best_acc = 1 / 2, best_model_wts = 5,
        out = [Print_model, Blank, Epoch_header 0 2, Phase_stats Train (2 / 3) (1 / 3),
               Phase_stats Val (1 / 2) (1 / 2), Blank]\<rparr>"
  by (simp add: epoch_body_def phase_body_def phase_pass_def toy_order_pass
      example_val_pass batch_body_def toy_fields toy_world_def epoch_stats_def toy_sizes
      count_equal_def Let_def)

lemma toy_epoch_1:
  "epoch_body (feature_datasets example_splits) toy_order toy 3
     \<lparr>model = \<lparr>state_dict = 5, training = False, opt_state = (0, 1)\<rparr>,
      best_acc = 1 / 2, best_model_wts = 5, out = lines\<rparr> 1 =
   Inr \<lparr>model = \<lparr>state_dict = 6, training = False, opt_state = (0, 2)\<rparr>,
        best_acc = 1 / 2, best_model_wts = 5,
        out = lines @ [Epoch_header 1 2, Phase_stats Train (2 / 3) (1 / 3),
               Phase_stats Val (1 / 2) (1 / 2), Blank]\<rparr>"
  by (simp add: epoch_body_def phase_body_def phase_pass_def toy_order_pass
      example_val_pass batch_body_def toy_fields epoch_stats_def toy_sizes
      count_equal_def Let_def)

lemma toy_epoch_2:
  "epoch_body (feature_datasets example_splits) toy_order toy 3
     \<lparr>model = \<lparr>state_dict = 6, training = False, opt_state = (0, 2)\<rparr>,
      best_acc = 1 / 2, best_model_wts = 5, out = lines\<rparr> 2 =
   Inr \<lparr>model = \<lparr>state_dict = 7, training = False, opt_state = (0, 3)\<rparr>,
        best_acc = 1 / 2, best_model_wts = 5,
        out = lines @ [Epoch_header 2 2, Phase_stats Train (2 / 3) (1 / 3),
               Phase_stats Val 1 0, Blank]\<rparr>"
  by (simp add: epoch_body_def phase_body_def phase_pass_def toy_order_pass
      example_val_pass batch_body_def toy_fields epoch_stats_def toy_sizes
      count_equal_def Let_def)

lemma toy_run_4:
  "train_model (feature_datasets example_splits) toy_order toy (toy_world 4) 3 =
     Inr (\<lparr>state_dict = 5, training = False, opt_state = (0, 3)\<rparr>,
          [Print_model, Blank,
           Epoch_header 0 2, Phase_stats Train (2 / 3) (1 / 3), Phase_stats Val (1 / 2) (1 / 2), Blank,
           Epoch_header 1 2, Phase_stats Train (2 / 3) (1 / 3), Phase_stats Val (1 / 2) (1 / 2), Blank,
           Epoch_header 2 2, Phase_stats Train (2 / 3) (1 / 3), Phase_stats Val 1 0, Blank,
           Blank, Training_complete, Best_val_acc (1 / 2)])"
proof -
  have u: "[0..<nat 3] = [0, 1, 2]" by (simp add: numeral_3_eq_3)
  have w: "state_dict (toy_world 4) = 4" by (simp add: toy_world_def)
  show ?thesis
    unfolding train_model_def Let_def u w fold_err.simps toy_epoch_0 sum.case toy_epoch_1 toy_epoch_2
    by (simp add: bind_err_def)
qed

text \<open>
  The toy model from \<open>w = 4\<close> over three epochs: accuracies 1/2, 1/2, 0, so the first
  epoch's weights are kept; and from \<open>w = 6\<close> over one epoch: accuracy 0, so the
  initial weights are.
\<close>

theorem train_model_earliest_best_witness:
  "(\<exists>mdl lines.
      train_model (feature_datasets example_splits) toy_order toy (toy_world 4) 3 = Inr (mdl, lines) \<and>
      state_dict mdl = val_wts (feature_datasets example_splits) toy_order toy (toy_world 4) 0) \<and>
   val_acc (feature_datasets example_splits) toy_order toy (toy_world 4) 0 = 1 / 2 \<and>
   val_acc (feature_datasets example_splits) toy_order toy (toy_world 4) 1 = 1 / 2 \<and>
   val_acc (feature_datasets example_splits) toy_order toy (toy_world 4) 2 = 0 \<and>
   val_wts (feature_datasets example_splits) toy_order toy (toy_world 4) 0 = 5 \<and>
   (\<exists>mdl lines.
      train_model (feature_datasets example_splits) toy_order toy (toy_world 6) 1 = Inr (mdl, lines) \<and>
      state_dict mdl = state_dict (toy_world 6)) \<and>
   val_acc (feature_datasets example_splits) toy_order toy (toy_world 6) 0 = 0"
proof -
  let ?fd = "feature_datasets example_splits"
  have a: "val_acc ?fd toy_order toy (toy_world 4) 0 = 1 / 2"
    "val_acc ?fd toy_order toy (toy_world 4) 1 = 1 / 2"
    "val_acc ?fd toy_order toy (toy_world 4) 2 = 0"
    "val_acc ?fd toy_order toy (toy_world 6) 0 = 0"
    by (simp_all add: toy_val_acc)
  have w: "val_wts ?fd toy_order toy (toy_world 4) 0 = 5" by (simp add: toy_val_wts)
  have three: "e = 0 \<or> e = 1 \<or> e = 2" if "e < nat 3" for e using that by auto
  have mx: "\<forall>e'<nat 3. val_acc ?fd toy_order toy (toy_world 4) e'
               \<le> val_acc ?fd toy_order toy (toy_world 4) 0"
    using three a by fastforce
  have none: "\<forall>e<nat 1. val_acc ?fd toy_order toy (toy_world 6) e \<le> 0"
    using a(4) by simp
  from train_model_earliest_best [where fd = ?fd and rng = toy_order and tc = toy
      and m = "toy_world 4" and N = 3, OF toy_hyps]
  obtain mdl lines where
    r: "train_model ?fd toy_order toy (toy_world 4) 3 = Inr (mdl, lines)"
    and f: "\<forall>e<nat 3.
              0 < val_acc ?fd toy_order toy (toy_world 4) e \<and>
              (\<forall>e'<nat 3. val_acc ?fd toy_order toy (toy_world 4) e'
                 \<le> val_acc ?fd toy_order toy (toy_world 4) e) \<and>
              (\<forall>e'<e. val_acc ?fd toy_order toy (toy_world 4) e'
                 < val_acc ?fd toy_order toy (toy_world 4) e)
              \<longrightarrow> state_dict mdl = val_wts ?fd toy_order toy (toy_world 4) e"
    by blast
  have s: "state_dict mdl = val_wts ?fd toy_order toy (toy_world 4) 0"
    using f [rule_format, of 0] mx a(1) by simp
  from train_model_earliest_best [where fd = ?fd and rng = toy_order and tc = toy
      and m = "toy_world 6" and N = 1, OF toy_hyps]
  obtain mdl' lines' where
    r': "train_model ?fd toy_order toy (toy_world 6) 1 = Inr (mdl', lines')"
    and n: "(\<forall>e<nat 1. val_acc ?fd toy_order toy (toy_world 6) e \<le> 0)
              \<longrightarrow> state_dict mdl' = state_dict (toy_world 6)"
    by blast
  have s': "state_dict mdl' = state_dict (toy_world 6)" using n none by blast
  show ?thesis using r s r' s' a w by blast
qed

text \<open>
  C1, as stated, fails when no epoch has a positive validation accuracy: the toy model
  trained from \<open>w = 6\<close> for one epoch has validation accuracy 0 in that epoch, the
  maximum over all epochs, and the weights at the end of its validation phase are 7,
  but the returned model has the initial weights 6.
\<close>

theorem train_model_all_zero:
  "train_model (feature_datasets example_splits) toy_order toy (toy_world 6) 1 =
     Inr (\<lparr>state_dict = 6, training = False, opt_state = (0, 1)\<rparr>,
          [Print_model, Blank, Epoch_header 0 0, Phase_stats Train (2 / 3) (1 / 3),
           Phase_stats Val 1 0, Blank, Blank, Training_complete, Best_val_acc 0]) \<and>
   val_acc (feature_datasets example_splits) toy_order toy (toy_world 6) 0 = 0 \<and>
   val_wts (feature_datasets example_splits) toy_order toy (toy_world 6) 0 = 7 \<and>
   state_dict \<lparr>state_dict = 6 :: nat, training = False, opt_state = (0 :: int, 1 :: nat)\<rparr>
     \<noteq> val_wts (feature_datasets example_splits) toy_order toy (toy_world 6) 0"
  by (simp add: toy_run_6 toy_val_acc toy_val_wts)

text \<open>The toy model from \<open>w = 4\<close> over three epochs.\<close>

theorem train_model_returns_best_witness:
  "\<exists>mdl lines e.
     train_model (feature_datasets example_splits) toy_order toy (toy_world 4) 3 = Inr (mdl, lines) \<and>
     last lines = Best_val_acc (1 / 2) \<and> e < 3 \<and>
     val_acc (feature_datasets example_splits) toy_order toy (toy_world 4) e = 1 / 2 \<and>
     state_dict mdl = val_wts (feature_datasets example_splits) toy_order toy (toy_world 4) e"
proof -
  let ?fd = "feature_datasets example_splits"
  let ?va = "val_acc ?fd toy_order toy (toy_world 4)"
  have a: "?va 0 = 1 / 2" "?va 1 = 1 / 2" "?va 2 = 0"
    by (simp_all add: toy_val_acc)
  have s3: "{..<nat 3} = {0, 1, 2}" by auto
  have mx: "Max (?va ` {..<nat 3}) = 1 / 2"
    unfolding s3 using a by simp
  have pos: "\<exists>e<nat 3. 0 < ?va e" using a(1) by (intro exI [where x = 0]) simp
  have N: "0 < (3 :: int)" by simp
  from train_model_returns_best [where fd = ?fd and rng = toy_order and tc = toy
      and m = "toy_world 4" and N = 3, OF toy_hyps N]
  obtain mdl lines where
    r: "train_model ?fd toy_order toy (toy_world 4) 3 = Inr (mdl, lines)"
    and l: "last lines = Best_val_acc (Max (?va ` {..<nat 3}))"
    and i: "(\<exists>e<nat 3. 0 < ?va e) \<longrightarrow>
            (\<exists>e<nat 3. ?va e = Max (?va ` {..<nat 3}) \<and>
                       state_dict mdl = val_wts ?fd toy_order toy (toy_world 4) e)"
    by blast
  from i pos obtain e where "e < nat 3" "?va e = Max (?va ` {..<nat 3})"
    "state_dict mdl = val_wts ?fd toy_order toy (toy_world 4) e"
    by blast
  then show ?thesis using r l unfolding mx by auto
qed

end
